theory Spec2Isabelle
  imports Complex_Main "HOL-Library.Stream" "HOL-Library.AList"
begin

section \<open>Shared vocabulary of the snake programs\<close>

text \<open>
  The repository holds three grid snake programs: \<^verbatim>\<open>retro_snake_game.py\<close> (class
  \<^verbatim>\<open>SnakeGame\<close>, a 40 x 30 grid, power-ups, a menu/playing/paused/game-over state
  field), the first program of \<^verbatim>\<open>realistic_snake_game.py\<close> (window caption
  "Pi Snake Game", a 32 x 24 grid; names prefixed \<open>pi_\<close> below) and the grid program of
  \<^verbatim>\<open>realistic_snake.py\<close> (caption "Ultra Realistic Snake Game", a 60 x 40 grid;
  names prefixed \<open>ultra_\<close>).  Python integers are \<open>int\<close>, Python floats are \<open>real\<close>
  (rounding and NaN are left out), grid cells are pairs of integers.
\<close>

type_synonym cell = "int \<times> int"

datatype py_error = IndexError | ValueError

text \<open>
  What a call does: it returns, it raises, or (a \<^verbatim>\<open>while True\<close> loop that never
  meets its exit) it runs forever.
\<close>

datatype 'a outcome = Returns 'a | Raises py_error | Loops

subsection \<open>The random source and the clock\<close>

text \<open>
  The module \<^verbatim>\<open>random\<close> is a stream of raw draws, consumed one per call.
  \<^verbatim>\<open>random.randint(a, b)\<close> yields every integer of \<open>a..b\<close> and no other (all call
  sites have \<open>a \<le> b\<close>), \<^verbatim>\<open>random.choice(seq)\<close> an element of a non-empty sequence,
  \<^verbatim>\<open>random.uniform(a, b)\<close> the point \<open>a + (b - a) * u\<close> for a 53-bit fraction \<open>u\<close>.
\<close>

type_synonym rng = "nat stream"

definition randint :: "int \<Rightarrow> int \<Rightarrow> rng \<Rightarrow> int \<times> rng" where
  "randint a b r = (a + int (shd r mod nat (b - a + 1)), stl r)"

definition choice :: "'a list \<Rightarrow> rng \<Rightarrow> 'a \<times> rng" where
  "choice xs r = (xs ! (shd r mod length xs), stl r)"

definition uniform :: "real \<Rightarrow> real \<Rightarrow> rng \<Rightarrow> real \<times> rng" where
  "uniform a b r = (a + (b - a) * (real (shd r mod 2 ^ 53) / 2 ^ 53), stl r)"

text \<open>
  The world outside the game object: the random source, the successive readings of
  \<^verbatim>\<open>time.time()\<close> taken by the modelled methods, the content of
  \<^verbatim>\<open>snake_highscore.txt\<close> (\<open>None\<close> when the file cannot be opened and read as text), and
  whether \<^verbatim>\<open>open('snake_highscore.txt', 'w')\<close> succeeds (an error between a successful
  open and the end of the write is not modelled).
\<close>

record world =
  rng :: rng
  clock :: "real stream"
  highscore_file :: "string option"
  highscore_writable :: bool

definition time_time :: "world \<Rightarrow> real \<times> world" where
  "time_time w = (shd (clock w), w\<lparr>clock := stl (clock w)\<rparr>)"

subsection \<open>Directions\<close>

datatype Direction = UP | DOWN | LEFT | RIGHT

fun direction_value :: "Direction \<Rightarrow> int \<times> int" where
  "direction_value UP = (0, -1)"
| "direction_value DOWN = (0, 1)"
| "direction_value LEFT = (-1, 0)"
| "direction_value RIGHT = (1, 0)"

text \<open>The dictionary \<^verbatim>\<open>opposite\<close> of \<^verbatim>\<open>Snake.set_direction\<close>.\<close>

fun opposite :: "Direction \<Rightarrow> Direction" where
  "opposite UP = DOWN"
| "opposite DOWN = UP"
| "opposite LEFT = RIGHT"
| "opposite RIGHT = LEFT"

section \<open>The Pi program: \<^verbatim>\<open>realistic_snake_game.py\<close>\<close>

definition PI_GRID_WIDTH :: int where "PI_GRID_WIDTH = 800 div 25"
definition PI_GRID_HEIGHT :: int where "PI_GRID_HEIGHT = 600 div 25"

subsection \<open>Particle and ParticleSystem\<close>

record pi_Particle =
  pi_x :: real
  pi_y :: real
  pi_vx :: real
  pi_vy :: real
  pi_lifetime :: real
  pi_max_lifetime :: real

definition pi_Particle_init :: "real \<Rightarrow> real \<Rightarrow> real \<times> real \<Rightarrow> real \<Rightarrow> pi_Particle" where
  "pi_Particle_init x y velocity lifetime =
     \<lparr>pi_x = x, pi_y = y, pi_vx = fst velocity, pi_vy = snd velocity,
      pi_lifetime = lifetime, pi_max_lifetime = lifetime\<rparr>"

definition pi_Particle_update :: "real \<Rightarrow> pi_Particle \<Rightarrow> pi_Particle" where
  "pi_Particle_update dt p =
     p\<lparr>pi_x := pi_x p + pi_vx p * dt, pi_y := pi_y p + pi_vy p * dt,
       pi_lifetime := pi_lifetime p - dt\<rparr>"

record pi_ParticleSystem =
  pi_particles :: "pi_Particle list"
  pi_max_particles :: int

definition pi_ParticleSystem_init :: pi_ParticleSystem where
  "pi_ParticleSystem_init = \<lparr>pi_particles = [], pi_max_particles = 20\<rparr>"

text \<open>The body of the \<^verbatim>\<open>for _ in range(count)\<close> loop of \<^verbatim>\<open>add_explosion\<close>.\<close>

fun pi_explosion_loop :: "nat \<Rightarrow> real \<Rightarrow> real \<Rightarrow> pi_Particle list \<Rightarrow> rng \<Rightarrow> pi_Particle list \<times> rng" where
  "pi_explosion_loop 0 x y ps r = (ps, r)"
| "pi_explosion_loop (Suc n) x y ps r =
     (let (angle, r1) = uniform 0 (2 * pi) r;
          (speed, r2) = uniform 30 80 r1;
          velocity = (cos angle * speed, sin angle * speed);
          (lifetime, r3) = uniform 0.3 0.8 r2
      in pi_explosion_loop n x y (ps @ [pi_Particle_init x y velocity lifetime]) r3)"

definition pi_add_explosion :: "real \<Rightarrow> real \<Rightarrow> nat \<Rightarrow> pi_ParticleSystem \<Rightarrow> rng \<Rightarrow> pi_ParticleSystem \<times> rng" where
  "pi_add_explosion x y count ps r =
     (if int (length (pi_particles ps)) > pi_max_particles ps then (ps, r)
      else (let (qs, r') = pi_explosion_loop count x y (pi_particles ps) r
            in (ps\<lparr>pi_particles := qs\<rparr>, r')))"

text \<open>
  \<^verbatim>\<open>ParticleSystem.update\<close>: the list comprehension keeps the particles with
  \<^verbatim>\<open>lifetime > 0\<close>, then every kept particle is advanced by \<open>dt\<close>.
\<close>

definition pi_ParticleSystem_update :: "real \<Rightarrow> pi_ParticleSystem \<Rightarrow> pi_ParticleSystem" where
  "pi_ParticleSystem_update dt ps =
     ps\<lparr>pi_particles := map (pi_Particle_update dt) (filter (\<lambda>p. pi_lifetime p > 0) (pi_particles ps))\<rparr>"

subsection \<open>Snake\<close>

record pi_Snake =
  pi_segments :: "cell list"
  pi_direction :: Direction
  pi_next_direction :: Direction
  pi_growing :: bool
  pi_move_timer :: real
  pi_move_delay :: real

definition pi_Snake_init :: "int \<Rightarrow> int \<Rightarrow> pi_Snake" where
  "pi_Snake_init start_x start_y =
     \<lparr>pi_segments = [(start_x, start_y)], pi_direction = RIGHT, pi_next_direction = RIGHT,
      pi_growing = False, pi_move_timer = 0, pi_move_delay = 0.2\<rparr>"

definition pi_set_direction :: "Direction \<Rightarrow> pi_Snake \<Rightarrow> pi_Snake" where
  "pi_set_direction d s =
     (if length (pi_segments s) > 1 then
        (if d \<noteq> opposite (pi_direction s) then s\<lparr>pi_next_direction := d\<rparr> else s)
      else s\<lparr>pi_next_direction := d\<rparr>)"

text \<open>
  \<^verbatim>\<open>Snake.move\<close>: \<^verbatim>\<open>self.segments[0]\<close> raises on an empty list; \<^verbatim>\<open>pop()\<close> drops the
  last element of the list that already holds the new head.
\<close>

definition pi_move :: "pi_Snake \<Rightarrow> py_error + pi_Snake" where
  "pi_move s =
     (let s1 = s\<lparr>pi_direction := pi_next_direction s\<rparr> in
      case pi_segments s1 of
        [] \<Rightarrow> Inl IndexError
      | (head_x, head_y) # rest \<Rightarrow>
          (let (dx, dy) = direction_value (pi_direction s1);
               new_head = (head_x + dx, head_y + dy);
               s2 = s1\<lparr>pi_segments := new_head # pi_segments s1\<rparr>
           in if \<not> pi_growing s2 then Inr (s2\<lparr>pi_segments := butlast (pi_segments s2)\<rparr>)
              else Inr (s2\<lparr>pi_growing := False\<rparr>)))"

definition pi_Snake_update :: "real \<Rightarrow> pi_Snake \<Rightarrow> py_error + pi_Snake" where
  "pi_Snake_update dt s =
     (let s1 = s\<lparr>pi_move_timer := pi_move_timer s + dt\<rparr> in
      if pi_move_timer s1 \<ge> pi_move_delay s1 then pi_move (s1\<lparr>pi_move_timer := 0\<rparr>)
      else Inr s1)"

definition pi_grow :: "pi_Snake \<Rightarrow> pi_Snake" where
  "pi_grow s = s\<lparr>pi_growing := True\<rparr>"

definition pi_get_head_position :: "pi_Snake \<Rightarrow> py_error + cell" where
  "pi_get_head_position s = (case pi_segments s of [] \<Rightarrow> Inl IndexError | h # rest \<Rightarrow> Inr h)"

definition pi_check_collision :: "pi_Snake \<Rightarrow> int \<Rightarrow> int \<Rightarrow> bool" where
  "pi_check_collision s x y \<longleftrightarrow> (x, y) \<in> set (pi_segments s)"

definition pi_check_wall_collision :: "pi_Snake \<Rightarrow> py_error + bool" where
  "pi_check_wall_collision s =
     (case pi_get_head_position s of
        Inl e \<Rightarrow> Inl e
      | Inr (head_x, head_y) \<Rightarrow>
          Inr (head_x < 0 \<or> head_x \<ge> PI_GRID_WIDTH \<or> head_y < 0 \<or> head_y \<ge> PI_GRID_HEIGHT))"

text \<open>\<^verbatim>\<open>head in self.segments[1:]\<close>: the slice is the list without its first element.\<close>

definition pi_check_self_collision :: "pi_Snake \<Rightarrow> py_error + bool" where
  "pi_check_self_collision s =
     (case pi_get_head_position s of
        Inl e \<Rightarrow> Inl e
      | Inr head \<Rightarrow> Inr (head \<in> set (drop 1 (pi_segments s))))"

subsection \<open>Apple, Obstacle and Game\<close>

record pi_Apple =
  pi_apple_x :: int
  pi_apple_y :: int
  pi_pulse_time :: real

definition pi_Apple_init :: "int \<Rightarrow> int \<Rightarrow> pi_Apple" where
  "pi_Apple_init x y = \<lparr>pi_apple_x = x, pi_apple_y = y, pi_pulse_time = 0\<rparr>"

definition pi_Apple_update :: "real \<Rightarrow> pi_Apple \<Rightarrow> pi_Apple" where
  "pi_Apple_update dt a = a\<lparr>pi_pulse_time := pi_pulse_time a + dt * 2\<rparr>"

record pi_Obstacle =
  pi_obs_x :: int
  pi_obs_y :: int

record pi_Game =
  pi_snake :: pi_Snake
  pi_apple :: "pi_Apple option"
  pi_obstacles :: "pi_Obstacle list"
  pi_score :: int
  pi_apples_eaten :: int
  pi_game_over :: bool
  pi_paused :: bool
  pi_particle_system :: pi_ParticleSystem
  pi_frame_count :: int
  pi_last_fps_time :: real
  pi_current_fps :: int

definition pi_is_obstacle :: "pi_Game \<Rightarrow> int \<Rightarrow> int \<Rightarrow> bool" where
  "pi_is_obstacle g x y \<longleftrightarrow> list_ex (\<lambda>obs. pi_obs_x obs = x \<and> pi_obs_y obs = y) (pi_obstacles g)"

text \<open>
  \<^verbatim>\<open>Game.spawn_apple\<close>: at most 100 attempts; when none finds a free cell the loop ends
  and \<^verbatim>\<open>self.apple\<close> keeps its old value.
\<close>

function pi_spawn_apple_loop :: "nat \<Rightarrow> pi_Game \<Rightarrow> rng \<Rightarrow> pi_Game \<times> rng" where
  "pi_spawn_apple_loop attempts g r =
     (if attempts < 100 then
        (let (x, r1) = randint 0 (PI_GRID_WIDTH - 1) r;
             (y, r2) = randint 0 (PI_GRID_HEIGHT - 1) r1
         in if \<not> pi_check_collision (pi_snake g) x y \<and> \<not> pi_is_obstacle g x y
            then (g\<lparr>pi_apple := Some (pi_Apple_init x y)\<rparr>, r2)
            else pi_spawn_apple_loop (attempts + 1) g r2)
      else (g, r))"
  by pat_completeness auto
termination
  by (relation "measure (\<lambda>(attempts, g, r). 100 - attempts)") auto

declare pi_spawn_apple_loop.simps [simp del]

definition pi_spawn_apple :: "pi_Game \<Rightarrow> rng \<Rightarrow> pi_Game \<times> rng" where
  "pi_spawn_apple g r = pi_spawn_apple_loop 0 g r"

text \<open>\<^verbatim>\<open>Game.spawn_obstacles\<close>: one bounded search (30 attempts) per obstacle.\<close>

function pi_spawn_obstacle_loop :: "nat \<Rightarrow> pi_Game \<Rightarrow> rng \<Rightarrow> pi_Game \<times> rng" where
  "pi_spawn_obstacle_loop attempts g r =
     (if attempts < 30 then
        (let (x, r1) = randint 0 (PI_GRID_WIDTH - 1) r;
             (y, r2) = randint 0 (PI_GRID_HEIGHT - 1) r1
         in if \<not> pi_check_collision (pi_snake g) x y \<and> \<not> pi_is_obstacle g x y \<and>
               (case pi_apple g of None \<Rightarrow> True
                | Some a \<Rightarrow> x \<noteq> pi_apple_x a \<or> y \<noteq> pi_apple_y a)
            then (g\<lparr>pi_obstacles := pi_obstacles g @ [\<lparr>pi_obs_x = x, pi_obs_y = y\<rparr>]\<rparr>, r2)
            else pi_spawn_obstacle_loop (attempts + 1) g r2)
      else (g, r))"
  by pat_completeness auto
termination
  by (relation "measure (\<lambda>(attempts, g, r). 30 - attempts)") auto

declare pi_spawn_obstacle_loop.simps [simp del]

fun pi_repeat_spawn_obstacle :: "nat \<Rightarrow> pi_Game \<Rightarrow> rng \<Rightarrow> pi_Game \<times> rng" where
  "pi_repeat_spawn_obstacle 0 g r = (g, r)"
| "pi_repeat_spawn_obstacle (Suc n) g r =
     (let (g', r') = pi_spawn_obstacle_loop 0 g r in pi_repeat_spawn_obstacle n g' r')"

definition pi_spawn_obstacles :: "pi_Game \<Rightarrow> rng \<Rightarrow> pi_Game \<times> rng" where
  "pi_spawn_obstacles g r =
     (let obstacle_count = min 6 (pi_apples_eaten g div 5 + 1)
      in pi_repeat_spawn_obstacle (nat obstacle_count) g r)"

text \<open>
  \<^verbatim>\<open>Game.update(dt)\<close>, one frame; \<open>pi_eat_apple\<close> is the body of its apple branch.
  The pixel coordinates of the explosions are \<^verbatim>\<open>cell * GRID_SIZE + GRID_SIZE // 2\<close>
  with \<^verbatim>\<open>GRID_SIZE = 25\<close>.
\<close>

definition pi_eat_apple :: "pi_Apple \<Rightarrow> pi_Game \<Rightarrow> world \<Rightarrow> pi_Game \<times> world" where
  "pi_eat_apple a g w =
     (let g1 = g\<lparr>pi_snake := pi_grow (pi_snake g), pi_score := pi_score g + 10,
                 pi_apples_eaten := pi_apples_eaten g + 1\<rparr>;
          apple_pixel_x = pi_apple_x a * 25 + 25 div 2;
          apple_pixel_y = pi_apple_y a * 25 + 25 div 2;
          (ps, r1) = pi_add_explosion (real_of_int apple_pixel_x) (real_of_int apple_pixel_y) 6
                       (pi_particle_system g1) (rng w);
          g2 = g1\<lparr>pi_particle_system := ps\<rparr>;
          (g3, r2) = pi_spawn_apple g2 r1
      in if pi_apples_eaten g3 mod 5 = 0 then
           (let (g4, r3) = pi_spawn_obstacles g3 r2;
                sn = pi_snake g4
            in (g4\<lparr>pi_snake := sn\<lparr>pi_move_delay := max 0.1 (pi_move_delay sn - 0.02)\<rparr>\<rparr>,
                w\<lparr>rng := r3\<rparr>))
         else (g3, w\<lparr>rng := r2\<rparr>))"

definition pi_update :: "real \<Rightarrow> pi_Game \<Rightarrow> world \<Rightarrow> py_error + (pi_Game \<times> world)" where
  "pi_update dt g w =
     (if pi_game_over g \<or> pi_paused g then Inr (g, w)
      else
        (let g1 = g\<lparr>pi_frame_count := pi_frame_count g + 1\<rparr>;
             (current_time, w1) = time_time w;
             g2 = (if current_time - pi_last_fps_time g1 \<ge> 1.0
                   then g1\<lparr>pi_current_fps := pi_frame_count g1, pi_frame_count := 0,
                           pi_last_fps_time := current_time\<rparr>
                   else g1)
         in case pi_Snake_update dt (pi_snake g2) of
              Inl e \<Rightarrow> Inl e
            | Inr sn \<Rightarrow>
               (let g3 = g2\<lparr>pi_snake := sn, pi_apple := map_option (pi_Apple_update dt) (pi_apple g2)\<rparr>;
                    g4 = g3\<lparr>pi_particle_system := pi_ParticleSystem_update dt (pi_particle_system g3)\<rparr>
                in case pi_get_head_position (pi_snake g4) of
                     Inl e \<Rightarrow> Inl e
                   | Inr head_pos \<Rightarrow>
                      (let (g5, w2) =
                             (case pi_apple g4 of
                                None \<Rightarrow> (g4, w1)
                              | Some a \<Rightarrow>
                                  if head_pos = (pi_apple_x a, pi_apple_y a) then pi_eat_apple a g4 w1
                                  else (g4, w1));
                           (head_x, head_y) = head_pos
                       in case pi_check_wall_collision (pi_snake g5) of
                            Inl e \<Rightarrow> Inl e
                          | Inr wall \<Rightarrow>
                             (case pi_check_self_collision (pi_snake g5) of
                                Inl e \<Rightarrow> Inl e
                              | Inr self \<Rightarrow>
                                  if wall \<or> self \<or> pi_is_obstacle g5 head_x head_y then
                                    (let pixel_x = head_x * 25 + 25 div 2;
                                         pixel_y = head_y * 25 + 25 div 2;
                                         (ps, r') = pi_add_explosion (real_of_int pixel_x) (real_of_int pixel_y) 10
                                                      (pi_particle_system g5) (rng w2)
                                     in Inr (g5\<lparr>pi_game_over := True, pi_particle_system := ps\<rparr>,
                                             w2\<lparr>rng := r'\<rparr>))
                                  else Inr (g5, w2))))))"

section \<open>The Ultra program: the grid game of \<^verbatim>\<open>realistic_snake.py\<close>\<close>

text \<open>
  Here a segment is an object that remembers its previous cell, and a move shifts the
  coordinates along the list instead of inserting a head and popping the tail.  The
  records keep the fields that the modelled methods read or write.
\<close>

definition ULTRA_GRID_WIDTH :: int where "ULTRA_GRID_WIDTH = 1200 div 20"
definition ULTRA_GRID_HEIGHT :: int where "ULTRA_GRID_HEIGHT = 800 div 20"

record ultra_SnakeSegment =
  ultra_x :: int
  ultra_y :: int
  ultra_is_head :: bool
  ultra_prev_x :: int
  ultra_prev_y :: int
  ultra_smooth_x :: real
  ultra_smooth_y :: real

definition ultra_SnakeSegment_init :: "int \<Rightarrow> int \<Rightarrow> bool \<Rightarrow> ultra_SnakeSegment" where
  "ultra_SnakeSegment_init x y is_head =
     \<lparr>ultra_x = x, ultra_y = y, ultra_is_head = is_head, ultra_prev_x = x, ultra_prev_y = y,
      ultra_smooth_x = real_of_int (x * 20), ultra_smooth_y = real_of_int (y * 20)\<rparr>"

definition ultra_update_smooth_position :: "real \<Rightarrow> ultra_SnakeSegment \<Rightarrow> ultra_SnakeSegment" where
  "ultra_update_smooth_position interpolation_factor seg =
     (let target_x = real_of_int (ultra_x seg * 20); target_y = real_of_int (ultra_y seg * 20)
      in seg\<lparr>ultra_smooth_x := ultra_smooth_x seg + (target_x - ultra_smooth_x seg) * interpolation_factor,
             ultra_smooth_y := ultra_smooth_y seg + (target_y - ultra_smooth_y seg) * interpolation_factor\<rparr>)"

record ultra_Snake =
  ultra_segments :: "ultra_SnakeSegment list"
  ultra_direction :: Direction
  ultra_next_direction :: Direction
  ultra_growing :: bool
  ultra_move_timer :: real
  ultra_move_delay :: real

definition ultra_Snake_init :: "int \<Rightarrow> int \<Rightarrow> ultra_Snake" where
  "ultra_Snake_init start_x start_y =
     \<lparr>ultra_segments = [ultra_SnakeSegment_init start_x start_y True], ultra_direction = RIGHT,
      ultra_next_direction = RIGHT, ultra_growing = False, ultra_move_timer = 0,
      ultra_move_delay = 0.15\<rparr>"

definition ultra_set_direction :: "Direction \<Rightarrow> ultra_Snake \<Rightarrow> ultra_Snake" where
  "ultra_set_direction d s =
     (if length (ultra_segments s) > 1 then
        (if d \<noteq> opposite (ultra_direction s) then s\<lparr>ultra_next_direction := d\<rparr> else s)
      else s\<lparr>ultra_next_direction := d\<rparr>)"

text \<open>
  The loop \<^verbatim>\<open>for i in range(1, len(self.segments))\<close> of \<^verbatim>\<open>Snake.move\<close>: segment \<open>i\<close>
  takes the previous cell of segment \<open>i - 1\<close>.
\<close>

function ultra_move_body :: "nat \<Rightarrow> ultra_SnakeSegment list \<Rightarrow> ultra_SnakeSegment list" where
  "ultra_move_body i segs =
     (if i < length segs then
        ultra_move_body (i + 1)
          (segs[i := (segs ! i)\<lparr>ultra_x := ultra_prev_x (segs ! (i - 1)),
                                ultra_y := ultra_prev_y (segs ! (i - 1))\<rparr>])
      else segs)"
  by pat_completeness auto
termination
  by (relation "measure (\<lambda>(i, segs). length segs - i)") auto

declare ultra_move_body.simps [simp del]

definition ultra_move :: "ultra_Snake \<Rightarrow> py_error + ultra_Snake" where
  "ultra_move s =
     (let s1 = s\<lparr>ultra_direction := ultra_next_direction s\<rparr>;
          segs1 = map (\<lambda>seg. seg\<lparr>ultra_prev_x := ultra_x seg, ultra_prev_y := ultra_y seg\<rparr>)
                    (ultra_segments s1)
      in case segs1 of
           [] \<Rightarrow> Inl IndexError
         | head # rest \<Rightarrow>
            (let (dx, dy) = direction_value (ultra_direction s1);
                 segs2 = segs1[0 := head\<lparr>ultra_x := ultra_x head + dx, ultra_y := ultra_y head + dy\<rparr>];
                 segs3 = ultra_move_body 1 segs2
             in if ultra_growing s1 then
                  (let tail = last segs3;
                       new_segment = ultra_SnakeSegment_init (ultra_prev_x tail) (ultra_prev_y tail) False
                   in Inr (s1\<lparr>ultra_segments := segs3 @ [new_segment], ultra_growing := False\<rparr>))
                else Inr (s1\<lparr>ultra_segments := segs3\<rparr>)))"

definition ultra_Snake_update :: "real \<Rightarrow> ultra_Snake \<Rightarrow> py_error + ultra_Snake" where
  "ultra_Snake_update dt s =
     (let s1 = s\<lparr>ultra_move_timer := ultra_move_timer s + dt\<rparr>;
          s2 = s1\<lparr>ultra_segments := map (ultra_update_smooth_position 0.3) (ultra_segments s1)\<rparr>
      in if ultra_move_timer s2 \<ge> ultra_move_delay s2 then ultra_move (s2\<lparr>ultra_move_timer := 0\<rparr>)
         else Inr s2)"

definition ultra_grow :: "ultra_Snake \<Rightarrow> ultra_Snake" where
  "ultra_grow s = s\<lparr>ultra_growing := True\<rparr>"

definition ultra_get_head_position :: "ultra_Snake \<Rightarrow> py_error + cell" where
  "ultra_get_head_position s =
     (case ultra_segments s of [] \<Rightarrow> Inl IndexError | h # rest \<Rightarrow> Inr (ultra_x h, ultra_y h))"

definition ultra_check_collision :: "ultra_Snake \<Rightarrow> int \<Rightarrow> int \<Rightarrow> bool" where
  "ultra_check_collision s x y \<longleftrightarrow>
     list_ex (\<lambda>segment. ultra_x segment = x \<and> ultra_y segment = y) (ultra_segments s)"

definition ultra_check_self_collision :: "ultra_Snake \<Rightarrow> py_error + bool" where
  "ultra_check_self_collision s =
     (case ultra_get_head_position s of
        Inl e \<Rightarrow> Inl e
      | Inr head_pos \<Rightarrow>
          Inr (list_ex (\<lambda>segment. ultra_x segment = fst head_pos \<and> ultra_y segment = snd head_pos)
                 (drop 1 (ultra_segments s))))"

record ultra_Apple =
  ultra_apple_x :: int
  ultra_apple_y :: int
  ultra_pulse_time :: real

record ultra_Obstacle =
  ultra_obs_x :: int
  ultra_obs_y :: int
  ultra_damage_level :: int

record ultra_Game =
  ultra_snake :: ultra_Snake
  ultra_apple :: "ultra_Apple option"
  ultra_obstacles :: "ultra_Obstacle list"
  ultra_score :: int
  ultra_apples_eaten :: int
  ultra_game_over :: bool
  ultra_paused :: bool

definition ultra_is_obstacle :: "ultra_Game \<Rightarrow> int \<Rightarrow> int \<Rightarrow> bool" where
  "ultra_is_obstacle g x y \<longleftrightarrow>
     list_ex (\<lambda>obs. ultra_obs_x obs = x \<and> ultra_obs_y obs = y) (ultra_obstacles g)"

text \<open>
  \<^verbatim>\<open>Game.spawn_apple\<close> of this program is a \<^verbatim>\<open>while True\<close> loop with no attempt
  counter: \<open>None\<close> is the run that never leaves it.
\<close>

partial_function (option) ultra_spawn_apple :: "ultra_Game \<Rightarrow> rng \<Rightarrow> (ultra_Game \<times> rng) option" where
  "ultra_spawn_apple g r =
     (let (x, r1) = randint 0 (ULTRA_GRID_WIDTH - 1) r;
          (y, r2) = randint 0 (ULTRA_GRID_HEIGHT - 1) r1
      in if \<not> ultra_check_collision (ultra_snake g) x y \<and> \<not> ultra_is_obstacle g x y
         then Some (g\<lparr>ultra_apple := Some \<lparr>ultra_apple_x = x, ultra_apple_y = y, ultra_pulse_time = 0\<rparr>\<rparr>, r2)
         else ultra_spawn_apple g r2)"

section \<open>The retro program: \<^verbatim>\<open>retro_snake_game.py\<close>\<close>

definition WINDOW_WIDTH :: int where "WINDOW_WIDTH = 800"
definition WINDOW_HEIGHT :: int where "WINDOW_HEIGHT = 600"
definition GRID_SIZE :: int where "GRID_SIZE = 20"
definition GRID_WIDTH :: int where "GRID_WIDTH = WINDOW_WIDTH div GRID_SIZE"
definition GRID_HEIGHT :: int where "GRID_HEIGHT = WINDOW_HEIGHT div GRID_SIZE"

type_synonym color = "int \<times> int \<times> int"

definition NEON_GREEN :: color where "NEON_GREEN = (57, 255, 20)"
definition NEON_PINK :: color where "NEON_PINK = (255, 20, 147)"
definition NEON_BLUE :: color where "NEON_BLUE = (30, 144, 255)"
definition NEON_YELLOW :: color where "NEON_YELLOW = (255, 255, 0)"
definition NEON_ORANGE :: color where "NEON_ORANGE = (255, 165, 0)"
definition NEON_PURPLE :: color where "NEON_PURPLE = (138, 43, 226)"
definition NEON_CYAN :: color where "NEON_CYAN = (0, 255, 255)"
definition DARK_GRAY :: color where "DARK_GRAY = (40, 40, 40)"
definition LIGHT_GRAY :: color where "LIGHT_GRAY = (128, 128, 128)"
definition RED :: color where "RED = (255, 0, 0)"

datatype GameState = MENU | PLAYING | PAUSED | GAME_OVER

datatype PowerUpType = SPEED_BOOST | SLOW_DOWN | GROW | SHRINK | INVINCIBILITY | DOUBLE_POINTS

record PowerUp =
  pu_x :: int
  pu_y :: int
  pu_type :: PowerUpType
  pu_duration :: int
  pu_color :: color
  pu_spawn_time :: real

record Obstacle =
  obs_x :: int
  obs_y :: int
  obs_width :: int
  obs_height :: int
  obs_color :: color
  obs_pattern :: string

record Particle =
  p_x :: real
  p_y :: real
  p_color :: color
  p_velocity :: "real \<times> real"
  p_lifetime :: int
  p_max_lifetime :: int
  p_size :: int

text \<open>\<^verbatim>\<open>Particle.__init__\<close> draws the size, so it consumes the random source.\<close>

definition Particle_init :: "real \<Rightarrow> real \<Rightarrow> color \<Rightarrow> real \<times> real \<Rightarrow> int \<Rightarrow> rng \<Rightarrow> Particle \<times> rng" where
  "Particle_init x y c velocity lifetime r =
     (let (sz, r') = randint 2 5 r
      in (\<lparr>p_x = x, p_y = y, p_color = c, p_velocity = velocity, p_lifetime = lifetime,
           p_max_lifetime = lifetime, p_size = sz\<rparr>, r'))"

definition Particle_update :: "Particle \<Rightarrow> Particle" where
  "Particle_update p =
     p\<lparr>p_x := p_x p + fst (p_velocity p), p_y := p_y p + snd (p_velocity p),
       p_lifetime := p_lifetime p - 1,
       p_velocity := (fst (p_velocity p) * 0.98, snd (p_velocity p) * 0.98)\<rparr>"

text \<open>
  The attributes of \<^verbatim>\<open>SnakeGame\<close> that the game logic reads or writes.  The dictionary
  \<^verbatim>\<open>effect_timers\<close> is an association list in insertion order; the dictionary
  \<^verbatim>\<open>active_effects\<close>, the fonts, the screen and the background are never read by the
  logic and are left out.
\<close>

record SnakeGame =
  snake :: "cell list"
  direction :: Direction
  food :: cell
  score :: int
  high_score :: int
  speed :: int
  base_speed :: int
  power_ups :: "PowerUp list"
  obstacles :: "Obstacle list"
  effect_timers :: "(string \<times> int) list"
  invincible :: bool
  double_points :: bool
  game_time :: int
  level :: int
  state :: GameState
  particles :: "Particle list"
  screen_shake :: int

subsection \<open>The high-score file\<close>

text \<open>
  Text is a list of characters with code points below 256.  \<^verbatim>\<open>str.strip()\<close> removes
  the characters for which \<^verbatim>\<open>str.isspace\<close> holds; \<^verbatim>\<open>int(s)\<close> removes a smaller set of
  whitespace itself (not the separators 28 to 31), then reads an optional sign and
  decimal digits, single underscores allowed between digits, and raises
  \<^verbatim>\<open>ValueError\<close> (\<open>None\<close>) otherwise, also when the literal has more than 4300 digits
  (the default \<^verbatim>\<open>sys.get_int_max_str_digits()\<close> of CPython).
\<close>

definition py_isspace :: "char \<Rightarrow> bool" where
  "py_isspace c \<longleftrightarrow> of_char c \<in> {9, 10, 11, 12, 13, 28, 29, 30, 31, 32, 133, 160 :: nat}"

definition py_strip :: "string \<Rightarrow> string" where
  "py_strip s = rev (dropWhile py_isspace (rev (dropWhile py_isspace s)))"

definition int_isspace :: "char \<Rightarrow> bool" where
  "int_isspace c \<longleftrightarrow> of_char c \<in> {9, 10, 11, 12, 13, 32, 133, 160 :: nat}"

definition int_strip :: "string \<Rightarrow> string" where
  "int_strip s = rev (dropWhile int_isspace (rev (dropWhile int_isspace s)))"

definition py_isdigit :: "char \<Rightarrow> bool" where
  "py_isdigit c \<longleftrightarrow> 48 \<le> (of_char c :: nat) \<and> (of_char c :: nat) \<le> 57"

definition digit_value :: "char \<Rightarrow> nat" where
  "digit_value c = of_char c - 48"

definition int_max_str_digits :: nat where
  "int_max_str_digits = 4300"

text \<open>
  \<open>py_digits need acc cs\<close>: \<open>need\<close> says that the next character must be a digit (at
  the start and after an underscore).
\<close>

fun py_digits :: "bool \<Rightarrow> nat \<Rightarrow> string \<Rightarrow> nat option" where
  "py_digits need acc [] = (if need then None else Some acc)"
| "py_digits need acc (c # cs) =
     (if py_isdigit c then py_digits False (10 * acc + digit_value c) cs
      else if c = CHR ''_'' \<and> \<not> need then py_digits True acc cs
      else None)"

definition py_int :: "string \<Rightarrow> int option" where
  "py_int s =
     (case int_strip s of
        [] \<Rightarrow> None
      | c # cs \<Rightarrow>
          if length (filter py_isdigit (c # cs)) > int_max_str_digits then None
          else if c = CHR ''-'' then map_option (\<lambda>n. - int n) (py_digits True 0 cs)
          else if c = CHR ''+'' then map_option int (py_digits True 0 cs)
          else map_option int (py_digits True 0 (c # cs)))"

text \<open>
  \<^verbatim>\<open>str(n)\<close> for an integer: its decimal digits, with a minus sign when negative; it
  raises \<^verbatim>\<open>ValueError\<close> (\<open>None\<close>) when there are more than 4300 digits.
\<close>

fun str_nat :: "nat \<Rightarrow> string" where
  "str_nat n = (if n < 10 then [char_of (48 + n)] else str_nat (n div 10) @ [char_of (48 + n mod 10)])"

declare str_nat.simps [simp del]

definition py_str :: "int \<Rightarrow> string option" where
  "py_str i =
     (let digits = str_nat (nat \<bar>i\<bar>)
      in if length digits > int_max_str_digits then None
         else Some (if i < 0 then CHR ''-'' # digits else digits))"

text \<open>
  \<^verbatim>\<open>load_high_score\<close>: the bare \<^verbatim>\<open>except\<close> turns a file that cannot be read and a
  content that \<^verbatim>\<open>int\<close> rejects into 0.
\<close>

definition load_high_score :: "world \<Rightarrow> int" where
  "load_high_score w =
     (case highscore_file w of
        None \<Rightarrow> 0
      | Some content \<Rightarrow> (case py_int (py_strip content) of None \<Rightarrow> 0 | Some n \<Rightarrow> n))"

text \<open>
  \<^verbatim>\<open>save_high_score\<close>: everything is inside \<^verbatim>\<open>try: ... except: pass\<close>.  When the file
  cannot be opened for writing nothing changes.  Opening with mode \<^verbatim>\<open>'w'\<close> empties the
  file; \<^verbatim>\<open>str(self.high_score)\<close> is evaluated after that, so when it raises the file
  stays empty.
\<close>

definition save_high_score :: "SnakeGame \<Rightarrow> world \<Rightarrow> world" where
  "save_high_score g w =
     (if \<not> highscore_writable w then w
      else (case py_str (high_score g) of
              None \<Rightarrow> w\<lparr>highscore_file := Some []\<rparr>
            | Some text \<Rightarrow> w\<lparr>highscore_file := Some text\<rparr>))"

subsection \<open>Obstacles and spawning\<close>

definition is_obstacle_at :: "SnakeGame \<Rightarrow> int \<Rightarrow> int \<Rightarrow> bool" where
  "is_obstacle_at g x y \<longleftrightarrow>
     list_ex (\<lambda>obstacle. obs_x obstacle \<le> x \<and> x < obs_x obstacle + obs_width obstacle \<and>
                          obs_y obstacle \<le> y \<and> y < obs_y obstacle + obs_height obstacle)
       (obstacles g)"

text \<open>
  \<^verbatim>\<open>spawn_food\<close> ("Spawn food at random location avoiding snake and obstacles"): a
  \<^verbatim>\<open>while True\<close> loop, so \<open>None\<close> is the run that never finds a free cell.
\<close>

partial_function (option) spawn_food :: "SnakeGame \<Rightarrow> rng \<Rightarrow> (cell \<times> rng) option" where
  "spawn_food g r =
     (let (x, r1) = randint 0 (GRID_WIDTH - 1) r;
          (y, r2) = randint 0 (GRID_HEIGHT - 1) r1
      in if (x, y) \<notin> set (snake g) \<and> \<not> is_obstacle_at g x y then Some ((x, y), r2)
         else spawn_food g r2)"

definition power_up_types :: "(PowerUpType \<times> color) list" where
  "power_up_types =
     [(SPEED_BOOST, NEON_YELLOW), (SLOW_DOWN, NEON_BLUE), (GROW, NEON_GREEN),
      (SHRINK, NEON_PINK), (INVINCIBILITY, NEON_PURPLE), (DOUBLE_POINTS, NEON_ORANGE)]"

text \<open>The \<^verbatim>\<open>while True\<close> loop of \<^verbatim>\<open>spawn_power_up\<close>.\<close>

partial_function (option) spawn_power_up_loop ::
    "PowerUpType \<Rightarrow> color \<Rightarrow> SnakeGame \<Rightarrow> world \<Rightarrow> (SnakeGame \<times> world) option" where
  "spawn_power_up_loop power_type c g w =
     (let (x, r1) = randint 0 (GRID_WIDTH - 1) (rng w);
          (y, r2) = randint 0 (GRID_HEIGHT - 1) r1;
          w1 = w\<lparr>rng := r2\<rparr>
      in if (x, y) \<notin> set (snake g) \<and> (x, y) \<noteq> food g \<and> \<not> is_obstacle_at g x y then
           (let (now, w2) = time_time w1;
                power_up = \<lparr>pu_x = x, pu_y = y, pu_type = power_type, pu_duration = 300,
                            pu_color = c, pu_spawn_time = now\<rparr>
            in Some (g\<lparr>power_ups := power_ups g @ [power_up]\<rparr>, w2))
         else spawn_power_up_loop power_type c g w1)"

definition spawn_power_up :: "SnakeGame \<Rightarrow> world \<Rightarrow> (SnakeGame \<times> world) option" where
  "spawn_power_up g w =
     (if length (power_ups g) \<ge> 3 then Some (g, w)
      else (let ((power_type, c), r1) = choice power_up_types (rng w)
            in spawn_power_up_loop power_type c g (w\<lparr>rng := r1\<rparr>)))"

definition create_line_obstacle :: "SnakeGame \<Rightarrow> rng \<Rightarrow> SnakeGame \<times> rng" where
  "create_line_obstacle g r =
     (let (horizontal, r1) = choice [True, False] r in
      if horizontal then
        (let (len, r2) = randint 3 8 r1;
             (x, r3) = randint 2 (GRID_WIDTH - len - 2) r2;
             (y, r4) = randint 2 (GRID_HEIGHT - 2) r3
         in (g\<lparr>obstacles := obstacles g @
               [\<lparr>obs_x = x, obs_y = y, obs_width = len, obs_height = 1, obs_color = LIGHT_GRAY,
                 obs_pattern = ''line''\<rparr>]\<rparr>, r4))
      else
        (let (len, r2) = randint 3 6 r1;
             (x, r3) = randint 2 (GRID_WIDTH - 2) r2;
             (y, r4) = randint 2 (GRID_HEIGHT - len - 2) r3
         in (g\<lparr>obstacles := obstacles g @
               [\<lparr>obs_x = x, obs_y = y, obs_width = 1, obs_height = len, obs_color = LIGHT_GRAY,
                 obs_pattern = ''line''\<rparr>]\<rparr>, r4)))"

definition create_box_obstacle :: "SnakeGame \<Rightarrow> rng \<Rightarrow> SnakeGame \<times> rng" where
  "create_box_obstacle g r =
     (let (sz, r1) = randint 2 4 r;
          (x, r2) = randint 2 (GRID_WIDTH - sz - 2) r1;
          (y, r3) = randint 2 (GRID_HEIGHT - sz - 2) r2
      in (g\<lparr>obstacles := obstacles g @
            [\<lparr>obs_x = x, obs_y = y, obs_width = sz, obs_height = sz, obs_color = DARK_GRAY,
              obs_pattern = ''box''\<rparr>]\<rparr>, r3))"

definition create_cross_obstacle :: "SnakeGame \<Rightarrow> rng \<Rightarrow> SnakeGame \<times> rng" where
  "create_cross_obstacle g r =
     (let (x, r1) = randint 3 (GRID_WIDTH - 4) r;
          (y, r2) = randint 3 (GRID_HEIGHT - 4) r1
      in (g\<lparr>obstacles := obstacles g @
            [\<lparr>obs_x = x, obs_y = y - 1, obs_width = 1, obs_height = 3, obs_color = NEON_CYAN,
              obs_pattern = ''cross''\<rparr>,
             \<lparr>obs_x = x - 1, obs_y = y, obs_width = 3, obs_height = 1, obs_color = NEON_CYAN,
              obs_pattern = ''cross''\<rparr>]\<rparr>, r2))"

definition create_corner_obstacle :: "SnakeGame \<Rightarrow> rng \<Rightarrow> SnakeGame \<times> rng" where
  "create_corner_obstacle g r =
     (let (x, r1) = randint 2 (GRID_WIDTH - 4) r;
          (y, r2) = randint 2 (GRID_HEIGHT - 4) r1
      in (g\<lparr>obstacles := obstacles g @
            [\<lparr>obs_x = x, obs_y = y, obs_width = 3, obs_height = 1, obs_color = NEON_PINK,
              obs_pattern = ''corner''\<rparr>,
             \<lparr>obs_x = x, obs_y = y, obs_width = 1, obs_height = 3, obs_color = NEON_PINK,
              obs_pattern = ''corner''\<rparr>]\<rparr>, r2))"

definition create_random_obstacle :: "SnakeGame \<Rightarrow> rng \<Rightarrow> SnakeGame \<times> rng" where
  "create_random_obstacle g r =
     (let (pat, r1) = choice [''line'', ''box'', ''cross'', ''corner''] r in
      if pat = ''line'' then create_line_obstacle g r1
      else if pat = ''box'' then create_box_obstacle g r1
      else if pat = ''cross'' then create_cross_obstacle g r1
      else if pat = ''corner'' then create_corner_obstacle g r1
      else (g, r1))"

fun repeat_create_obstacle :: "nat \<Rightarrow> SnakeGame \<Rightarrow> rng \<Rightarrow> SnakeGame \<times> rng" where
  "repeat_create_obstacle 0 g r = (g, r)"
| "repeat_create_obstacle (Suc n) g r =
     (let (g', r') = create_random_obstacle g r in repeat_create_obstacle n g' r')"

definition generate_obstacles :: "SnakeGame \<Rightarrow> rng \<Rightarrow> SnakeGame \<times> rng" where
  "generate_obstacles g r =
     (let g1 = g\<lparr>obstacles := []\<rparr>;
          obstacle_count = min (3 + level g1 div 2) 8
      in repeat_create_obstacle (nat obstacle_count) g1 r)"

subsection \<open>Collision\<close>

text \<open>
  \<^verbatim>\<open>check_collision(pos)\<close> is called with the candidate head before the snake list is
  changed: \<^verbatim>\<open>pos in self.snake\<close> looks at every current cell, the tail included.
\<close>

definition check_collision :: "SnakeGame \<Rightarrow> cell \<Rightarrow> bool" where
  "check_collision g pos =
     (let (x, y) = pos in
      if x < 0 \<or> x \<ge> GRID_WIDTH \<or> y < 0 \<or> y \<ge> GRID_HEIGHT then True
      else if pos \<in> set (snake g) then True
      else if is_obstacle_at g x y then True
      else False)"

subsection \<open>Power-ups and timed effects\<close>

text \<open>The two \<^verbatim>\<open>for _ in range(...)\<close> loops of \<^verbatim>\<open>apply_power_up\<close>.\<close>

fun grow_loop :: "nat \<Rightarrow> cell list \<Rightarrow> cell list" where
  "grow_loop 0 sn = sn"
| "grow_loop (Suc n) sn = grow_loop n (if sn \<noteq> [] then sn @ [last sn] else sn)"

fun pop_loop :: "nat \<Rightarrow> cell list \<Rightarrow> cell list" where
  "pop_loop 0 sn = sn"
| "pop_loop (Suc n) sn = pop_loop n (butlast sn)"

definition apply_power_up :: "PowerUp \<Rightarrow> SnakeGame \<Rightarrow> SnakeGame" where
  "apply_power_up power_up g =
     (let effect_duration = 300;
          g1 = (case pu_type power_up of
                  SPEED_BOOST \<Rightarrow>
                    g\<lparr>speed := min (speed g + 3) 20,
                      effect_timers := AList.update ''speed_boost'' effect_duration (effect_timers g)\<rparr>
                | SLOW_DOWN \<Rightarrow>
                    g\<lparr>speed := max (speed g - 2) 3,
                      effect_timers := AList.update ''slow_down'' effect_duration (effect_timers g)\<rparr>
                | GROW \<Rightarrow> g\<lparr>snake := grow_loop 3 (snake g)\<rparr>
                | SHRINK \<Rightarrow>
                    if length (snake g) > 3
                    then g\<lparr>snake := pop_loop (nat (min 2 (int (length (snake g)) - 1))) (snake g)\<rparr>
                    else g
                | INVINCIBILITY \<Rightarrow>
                    g\<lparr>invincible := True,
                      effect_timers := AList.update ''invincibility'' effect_duration (effect_timers g)\<rparr>
                | DOUBLE_POINTS \<Rightarrow>
                    g\<lparr>double_points := True,
                      effect_timers := AList.update ''double_points'' effect_duration (effect_timers g)\<rparr>)
      in g1\<lparr>score := score g1 + 5\<rparr>)"

text \<open>
  \<^verbatim>\<open>update_effects\<close> walks a snapshot of the dictionary's items and writes to the
  dictionary itself.
\<close>

fun update_effects_loop :: "(string \<times> int) list \<Rightarrow> SnakeGame \<Rightarrow> SnakeGame" where
  "update_effects_loop [] g = g"
| "update_effects_loop ((effect, timer) # items) g =
     (let g1 = g\<lparr>effect_timers := AList.update effect (timer - 1) (effect_timers g)\<rparr>;
          g2 = (if timer \<le> 0 then
                  (let g' = (if effect = ''speed_boost'' then g1\<lparr>speed := base_speed g1\<rparr>
                             else if effect = ''slow_down'' then g1\<lparr>speed := base_speed g1\<rparr>
                             else if effect = ''invincibility'' then g1\<lparr>invincible := False\<rparr>
                             else if effect = ''double_points'' then g1\<lparr>double_points := False\<rparr>
                             else g1)
                   in g'\<lparr>effect_timers := AList.delete effect (effect_timers g')\<rparr>)
                else g1)
      in update_effects_loop items g2)"

definition update_effects :: "SnakeGame \<Rightarrow> SnakeGame" where
  "update_effects g = update_effects_loop (effect_timers g) g"

subsection \<open>Particles\<close>

text \<open>
  The common shape of the loops of \<^verbatim>\<open>create_food_particles\<close>,
  \<^verbatim>\<open>create_power_up_particles\<close> and \<^verbatim>\<open>game_over\<close>: \<open>n\<close> particles at one pixel, each
  velocity component drawn from \<open>-v..v\<close>.
\<close>

fun particle_burst :: "nat \<Rightarrow> real \<Rightarrow> real \<Rightarrow> color \<Rightarrow> real \<Rightarrow> int \<Rightarrow> SnakeGame \<Rightarrow> rng \<Rightarrow> SnakeGame \<times> rng" where
  "particle_burst 0 x y c v lifetime g r = (g, r)"
| "particle_burst (Suc n) x y c v lifetime g r =
     (let (vx, r1) = uniform (- v) v r;
          (vy, r2) = uniform (- v) v r1;
          (p, r3) = Particle_init x y c (vx, vy) lifetime r2
      in particle_burst n x y c v lifetime (g\<lparr>particles := particles g @ [p]\<rparr>) r3)"

definition create_food_particles :: "cell \<Rightarrow> SnakeGame \<Rightarrow> rng \<Rightarrow> SnakeGame \<times> rng" where
  "create_food_particles pos g r =
     (let x = fst pos * GRID_SIZE + GRID_SIZE div 2; y = snd pos * GRID_SIZE + GRID_SIZE div 2
      in particle_burst 8 (real_of_int x) (real_of_int y) NEON_GREEN 3 60 g r)"

definition create_power_up_particles :: "cell \<Rightarrow> color \<Rightarrow> SnakeGame \<Rightarrow> rng \<Rightarrow> SnakeGame \<times> rng" where
  "create_power_up_particles pos c g r =
     (let x = fst pos * GRID_SIZE + GRID_SIZE div 2; y = snd pos * GRID_SIZE + GRID_SIZE div 2
      in particle_burst 12 (real_of_int x) (real_of_int y) c 4 60 g r)"

definition create_random_particle :: "int \<times> int \<Rightarrow> SnakeGame \<Rightarrow> rng \<Rightarrow> SnakeGame \<times> rng" where
  "create_random_particle pos g r =
     (let (c, r1) = choice [NEON_GREEN, NEON_PINK, NEON_BLUE, NEON_YELLOW, NEON_ORANGE] r;
          (vx, r2) = uniform (- 5) 5 r1;
          (vy, r3) = uniform (- 5) 5 r2;
          (p, r4) = Particle_init (real_of_int (fst pos)) (real_of_int (snd pos)) c (vx, vy) 60 r3
      in (g\<lparr>particles := particles g @ [p]\<rparr>, r4))"

fun repeat_random_particle :: "nat \<Rightarrow> int \<times> int \<Rightarrow> SnakeGame \<Rightarrow> rng \<Rightarrow> SnakeGame \<times> rng" where
  "repeat_random_particle 0 pos g r = (g, r)"
| "repeat_random_particle (Suc n) pos g r =
     (let (g', r') = create_random_particle pos g r in repeat_random_particle n pos g' r')"

text \<open>
  \<^verbatim>\<open>update_particles\<close> walks a copy of the list; every entry is a distinct object (each
  is built by its own \<^verbatim>\<open>Particle(...)\<close> call), so \<^verbatim>\<open>remove(particle)\<close> deletes the
  entry being visited.
\<close>

fun update_particles_loop :: "Particle list \<Rightarrow> Particle list" where
  "update_particles_loop [] = []"
| "update_particles_loop (particle # rest) =
     (let particle' = Particle_update particle
      in if p_lifetime particle' \<le> 0 then update_particles_loop rest
         else particle' # update_particles_loop rest)"

definition update_particles :: "SnakeGame \<Rightarrow> SnakeGame" where
  "update_particles g = g\<lparr>particles := update_particles_loop (particles g)\<rparr>"

definition apply_screen_shake :: "SnakeGame \<Rightarrow> rng \<Rightarrow> SnakeGame \<times> rng" where
  "apply_screen_shake g r =
     (if screen_shake g > 0 then
        (let (shake_x, r1) = randint (- screen_shake g) (screen_shake g) r;
             (shake_y, r2) = randint (- screen_shake g) (screen_shake g) r1
         in (g\<lparr>screen_shake := screen_shake g - 1\<rparr>, r2))
      else (g, r))"

subsection \<open>Level-up, game over and reset\<close>

definition level_up :: "SnakeGame \<Rightarrow> rng \<Rightarrow> SnakeGame \<times> rng" where
  "level_up g r =
     (let g1 = g\<lparr>level := level g + 1\<rparr>;
          g2 = g1\<lparr>base_speed := min (base_speed g1 + 1) 15\<rparr>;
          g3 = g2\<lparr>speed := base_speed g2\<rparr>;
          (g4, r1) = generate_obstacles g3 r;
          g5 = g4\<lparr>screen_shake := 10\<rparr>
      in repeat_random_particle 20 (WINDOW_WIDTH div 2, WINDOW_HEIGHT div 2) g5 r1)"

text \<open>
  \<^verbatim>\<open>game_over\<close>: the file is written inside the \<^verbatim>\<open>if\<close>; \<^verbatim>\<open>self.snake[0]\<close> raises on
  an empty list.
\<close>

definition game_over :: "SnakeGame \<Rightarrow> world \<Rightarrow> py_error + (SnakeGame \<times> world)" where
  "game_over g w =
     (let g1 = g\<lparr>state := GAME_OVER\<rparr>;
          (g2, w1) = (if score g1 > high_score g1
                      then (let g' = g1\<lparr>high_score := score g1\<rparr> in (g', save_high_score g' w))
                      else (g1, w))
      in case snake g2 of
           [] \<Rightarrow> Inl IndexError
         | head # rest \<Rightarrow>
            (let x = fst head * GRID_SIZE + GRID_SIZE div 2;
                 y = snd head * GRID_SIZE + GRID_SIZE div 2;
                 (g3, r') = particle_burst 30 (real_of_int x) (real_of_int y) RED 6 120 g2 (rng w1)
             in Inr (g3, w1\<lparr>rng := r'\<rparr>)))"

text \<open>
  \<^verbatim>\<open>reset_game\<close>: the food is spawned against the new one-cell snake and the obstacles
  of the game that just ended; the obstacles are replaced afterwards.
\<close>

definition reset_game :: "SnakeGame \<Rightarrow> world \<Rightarrow> (SnakeGame \<times> world) option" where
  "reset_game g w =
     (let g1 = g\<lparr>snake := [(GRID_WIDTH div 2, GRID_HEIGHT div 2)], direction := RIGHT\<rparr>
      in case spawn_food g1 (rng w) of
           None \<Rightarrow> None
         | Some (f, r1) \<Rightarrow>
            (let g2 = g1\<lparr>food := f, score := 0, high_score := load_high_score w, speed := 8,
                        base_speed := 8, power_ups := [], obstacles := [], effect_timers := [],
                        invincible := False, double_points := False, game_time := 0, level := 1\<rparr>;
                 (g3, r2) = generate_obstacles g2 r1
             in Some (g3, w\<lparr>rng := r2\<rparr>)))"

subsection \<open>One tick of the game: \<^verbatim>\<open>update_game\<close>\<close>

text \<open>
  The first block of \<^verbatim>\<open>update_game\<close> after its gate: the frame counter, the timed
  effects, the occasional power-up spawn and the expiry of power-ups older than ten
  seconds.
\<close>

definition tick_power_ups :: "SnakeGame \<Rightarrow> world \<Rightarrow> (SnakeGame \<times> world) option" where
  "tick_power_ups g w =
     (let g1 = g\<lparr>game_time := game_time g + 1\<rparr>;
          g2 = update_effects g1;
          (roll, r1) = randint 1 200 (rng w);
          w1 = w\<lparr>rng := r1\<rparr>
      in case (if roll = 1 then spawn_power_up g2 w1 else Some (g2, w1)) of
           None \<Rightarrow> None
         | Some (g3, w2) \<Rightarrow>
            (let (current_time, w3) = time_time w2
             in Some (g3\<lparr>power_ups := filter (\<lambda>p. current_time - pu_spawn_time p < 10) (power_ups g3)\<rparr>,
                      w3)))"

text \<open>
  The branch taken when the new head is on the food: the tail is kept, the food is
  spawned again against the snake that already holds the new head.
\<close>

definition eat_food :: "cell \<Rightarrow> SnakeGame \<Rightarrow> world \<Rightarrow> (SnakeGame \<times> world) option" where
  "eat_food new_head g w =
     (let points = (if double_points g then 10 * 2 else 10);
          g1 = g\<lparr>score := score g + points\<rparr>
      in case spawn_food g1 (rng w) of
           None \<Rightarrow> None
         | Some (f, r1) \<Rightarrow>
            (let g2 = g1\<lparr>food := f\<rparr>;
                 (g3, r2) = create_food_particles new_head g2 r1;
                 (g4, r3) = (if score g3 div 100 > level g3 - 1 then level_up g3 r2 else (g3, r2))
             in Some (g4, w\<lparr>rng := r3\<rparr>)))"

text \<open>
  The last loop of \<^verbatim>\<open>update_game\<close>, over a copy of \<^verbatim>\<open>self.power_ups\<close>.
  \<^verbatim>\<open>PowerUp\<close> is a dataclass, so \<^verbatim>\<open>remove\<close> deletes the first entry with equal fields.
\<close>

fun collect_power_ups :: "cell \<Rightarrow> PowerUp list \<Rightarrow> SnakeGame \<Rightarrow> rng \<Rightarrow> SnakeGame \<times> rng" where
  "collect_power_ups new_head [] g r = (g, r)"
| "collect_power_ups new_head (power_up # rest) g r =
     (if new_head = (pu_x power_up, pu_y power_up) then
        (let g1 = apply_power_up power_up g;
             g2 = g1\<lparr>power_ups := remove1 power_up (power_ups g1)\<rparr>;
             (g3, r1) = create_power_up_particles (pu_x power_up, pu_y power_up) (pu_color power_up) g2 r
         in collect_power_ups new_head rest g3 r1)
      else collect_power_ups new_head rest g r)"

text \<open>The part of \<^verbatim>\<open>update_game\<close> from the comment "Move snake" to its end.\<close>

definition move_snake :: "SnakeGame \<Rightarrow> world \<Rightarrow> (SnakeGame \<times> world) outcome" where
  "move_snake g w =
     (case snake g of
        [] \<Rightarrow> Raises IndexError
      | (head_x, head_y) # rest \<Rightarrow>
         (let (dx, dy) = direction_value (direction g);
              new_head = (head_x + dx, head_y + dy)
          in if check_collision g new_head \<and> \<not> invincible g then
               (case game_over g w of Inl e \<Rightarrow> Raises e | Inr gw \<Rightarrow> Returns gw)
             else
               (let g1 = g\<lparr>snake := new_head # snake g\<rparr>
                in case (if new_head = food g1 then eat_food new_head g1 w
                         else Some (g1\<lparr>snake := butlast (snake g1)\<rparr>, w)) of
                     None \<Rightarrow> Loops
                   | Some (g2, w1) \<Rightarrow>
                      (let (g3, r') = collect_power_ups new_head (power_ups g2) g2 (rng w1)
                       in Returns (g3, w1\<lparr>rng := r'\<rparr>)))))"

definition update_game :: "SnakeGame \<Rightarrow> world \<Rightarrow> (SnakeGame \<times> world) outcome" where
  "update_game g w =
     (if state g \<noteq> PLAYING then Returns (g, w)
      else (case tick_power_ups g w of
              None \<Rightarrow> Loops
            | Some (g1, w1) \<Rightarrow> move_snake g1 w1))"

subsection \<open>Input and the main loop\<close>

datatype Key = K_UP | K_DOWN | K_LEFT | K_RIGHT | K_SPACE | K_ESCAPE | K_OTHER

datatype Event = QUIT | KEYDOWN Key | OTHER_EVENT

text \<open>\<^verbatim>\<open>handle_input\<close>; \<open>keys\<close> is \<^verbatim>\<open>pygame.key.get_pressed()\<close>.\<close>

definition handle_input :: "(Key \<Rightarrow> bool) \<Rightarrow> SnakeGame \<Rightarrow> world \<Rightarrow> (SnakeGame \<times> world) option" where
  "handle_input keys g w =
     (case state g of
        PLAYING \<Rightarrow>
          if keys K_UP \<and> direction g \<noteq> DOWN then Some (g\<lparr>direction := UP\<rparr>, w)
          else if keys K_DOWN \<and> direction g \<noteq> UP then Some (g\<lparr>direction := DOWN\<rparr>, w)
          else if keys K_LEFT \<and> direction g \<noteq> RIGHT then Some (g\<lparr>direction := LEFT\<rparr>, w)
          else if keys K_RIGHT \<and> direction g \<noteq> LEFT then Some (g\<lparr>direction := RIGHT\<rparr>, w)
          else if keys K_SPACE then Some (g\<lparr>state := PAUSED\<rparr>, w)
          else Some (g, w)
      | PAUSED \<Rightarrow> if keys K_SPACE then Some (g\<lparr>state := PLAYING\<rparr>, w) else Some (g, w)
      | MENU \<Rightarrow>
          if keys K_SPACE then
            (case reset_game g w of
               None \<Rightarrow> None
             | Some (g', w') \<Rightarrow> Some (g'\<lparr>state := PLAYING\<rparr>, w'))
          else Some (g, w)
      | GAME_OVER \<Rightarrow> if keys K_SPACE then Some (g\<lparr>state := MENU\<rparr>, w) else Some (g, w))"

text \<open>The event loop at the top of \<^verbatim>\<open>run\<close>; the flag is \<^verbatim>\<open>running\<close>.\<close>

fun handle_events :: "Event list \<Rightarrow> bool \<times> SnakeGame \<Rightarrow> bool \<times> SnakeGame" where
  "handle_events [] rg = rg"
| "handle_events (event # rest) (running, g) =
     handle_events rest
       (case event of
          QUIT \<Rightarrow> (False, g)
        | KEYDOWN key \<Rightarrow>
            if key = K_ESCAPE then
              (if state g = PLAYING then (running, g\<lparr>state := PAUSED\<rparr>)
               else if state g = PAUSED then (running, g\<lparr>state := MENU\<rparr>)
               else (False, g))
            else (running, g)
        | OTHER_EVENT \<Rightarrow> (running, g))"

text \<open>
  One pass through the body of the \<^verbatim>\<open>while running\<close> loop of \<^verbatim>\<open>run\<close>.  Drawing reads
  the state and does not change it, except \<^verbatim>\<open>apply_screen_shake\<close>.
\<close>

definition run_iteration ::
    "Event list \<Rightarrow> (Key \<Rightarrow> bool) \<Rightarrow> SnakeGame \<Rightarrow> world \<Rightarrow> (bool \<times> SnakeGame \<times> world) outcome" where
  "run_iteration events keys g w =
     (let (running, g1) = handle_events events (True, g)
      in case handle_input keys g1 w of
           None \<Rightarrow> Loops
         | Some (g2, w1) \<Rightarrow>
            (case update_game g2 w1 of
               Loops \<Rightarrow> Loops
             | Raises e \<Rightarrow> Raises e
             | Returns (g3, w2) \<Rightarrow>
                (let g4 = update_particles g3;
                     (g5, r') = apply_screen_shake g4 (rng w2)
                 in Returns (running, g5, w2\<lparr>rng := r'\<rparr>))))"

section \<open>Sample states and helpers for stating the properties\<close>

text \<open>
  A world whose random source draws 0 for ever, with no high-score file yet, in a
  directory that can be written.
\<close>

definition world0 :: world where
  "world0 = \<lparr>rng = sconst 0, clock = sconst 0, highscore_file = None, highscore_writable = True\<rparr>"

text \<open>The retro game as \<^verbatim>\<open>reset_game\<close> leaves it, in play, before any obstacle exists.\<close>

definition retro_game0 :: SnakeGame where
  "retro_game0 =
     \<lparr>snake = [(20, 15)], direction = RIGHT, food = (5, 5), score = 0, high_score = 0, speed = 8,
      base_speed = 8, power_ups = [], obstacles = [], effect_timers = [], invincible = False,
      double_points = False, game_time = 0, level = 1, state = PLAYING, particles = [],
      screen_shake = 0\<rparr>"

text \<open>A keyboard on which exactly one key is held, and one on which none is.\<close>

definition only_key :: "Key \<Rightarrow> Key \<Rightarrow> bool" where
  "only_key k k' \<longleftrightarrow> k' = k"

definition no_key :: "Key \<Rightarrow> bool" where
  "no_key k \<longleftrightarrow> False"

fun arrow_key :: "Direction \<Rightarrow> Key" where
  "arrow_key UP = K_UP"
| "arrow_key DOWN = K_DOWN"
| "arrow_key LEFT = K_LEFT"
| "arrow_key RIGHT = K_RIGHT"

text \<open>The value of a call that returned.\<close>

fun returned :: "'a outcome \<Rightarrow> 'a option" where
  "returned (Returns x) = Some x"
| "returned (Raises e) = None"
| "returned Loops = None"

definition grow_item :: PowerUp where
  "grow_item = \<lparr>pu_x = 21, pu_y = 15, pu_type = GROW, pu_duration = 300, pu_color = NEON_GREEN,
                 pu_spawn_time = 0\<rparr>"

definition pi_dead_particle :: pi_Particle where
  "pi_dead_particle = \<lparr>pi_x = 0, pi_y = 0, pi_vx = 1, pi_vy = 1, pi_lifetime = 0, pi_max_lifetime = 1\<rparr>"

definition pi_live_particle :: pi_Particle where
  "pi_live_particle = \<lparr>pi_x = 0, pi_y = 0, pi_vx = 1, pi_vy = 1, pi_lifetime = 1, pi_max_lifetime = 1\<rparr>"

definition pi_two_particles :: pi_ParticleSystem where
  "pi_two_particles = \<lparr>pi_particles = [pi_dead_particle, pi_live_particle], pi_max_particles = 20\<rparr>"

definition dead_particle :: Particle where
  "dead_particle = \<lparr>p_x = 0, p_y = 0, p_color = RED, p_velocity = (1, 1), p_lifetime = 0,
                     p_max_lifetime = 60, p_size = 2\<rparr>"

definition live_particle :: Particle where
  "live_particle = \<lparr>p_x = 0, p_y = 0, p_color = RED, p_velocity = (1, 1), p_lifetime = 5,
                     p_max_lifetime = 60, p_size = 2\<rparr>"

text \<open>A Pi snake of two cells heading right.\<close>

definition pi_snake2 :: pi_Snake where
  "pi_snake2 = (pi_Snake_init 16 12)\<lparr>pi_segments := [(16, 12), (15, 12)]\<rparr>"

text \<open>The cells a snake occupies, and the cell its next move puts the head on.\<close>

definition ultra_cells :: "ultra_Snake \<Rightarrow> cell list" where
  "ultra_cells s = map (\<lambda>seg. (ultra_x seg, ultra_y seg)) (ultra_segments s)"

definition ultra_new_head :: "ultra_Snake \<Rightarrow> cell" where
  "ultra_new_head s =
     (let (x, y) = hd (ultra_cells s); (dx, dy) = direction_value (ultra_next_direction s)
      in (x + dx, y + dy))"

definition pi_new_head :: "pi_Snake \<Rightarrow> cell" where
  "pi_new_head s =
     (let (x, y) = hd (pi_segments s); (dx, dy) = direction_value (pi_next_direction s)
      in (x + dx, y + dy))"

text \<open>
  Four segments on the square (5,5), (5,6), (6,6), (6,5), heading right: the next head
  cell is the tail cell.
\<close>

definition ultra_ring :: ultra_Snake where
  "ultra_ring = (ultra_Snake_init 5 5)\<lparr>ultra_segments :=
      [ultra_SnakeSegment_init 5 5 True, ultra_SnakeSegment_init 5 6 False,
       ultra_SnakeSegment_init 6 6 False, ultra_SnakeSegment_init 6 5 False]\<rparr>"

definition retro_ring :: SnakeGame where
  "retro_ring = retro_game0\<lparr>snake := [(5, 5), (5, 6), (6, 6), (6, 5)]\<rparr>"

abbreviation "cell_of seg \<equiv> (ultra_x seg, ultra_y seg)"
abbreviation "prev_of seg \<equiv> (ultra_prev_x seg, ultra_prev_y seg)"

text \<open>
  The cell that one pass of a spawn loop draws on a \<open>w\<close> by \<open>h\<close> grid, the cells of the
  grid, and the test each spawner applies to the drawn cell.
\<close>

definition draw_cell :: "int \<Rightarrow> int \<Rightarrow> rng \<Rightarrow> cell" where
  "draw_cell w h r = (fst (randint 0 (w - 1) r), fst (randint 0 (h - 1) (stl r)))"

definition in_grid :: "int \<Rightarrow> int \<Rightarrow> cell \<Rightarrow> bool" where
  "in_grid w h pos \<longleftrightarrow> 0 \<le> fst pos \<and> fst pos < w \<and> 0 \<le> snd pos \<and> snd pos < h"

definition food_cell_free :: "SnakeGame \<Rightarrow> cell \<Rightarrow> bool" where
  "food_cell_free g pos \<longleftrightarrow> pos \<notin> set (snake g) \<and> \<not> is_obstacle_at g (fst pos) (snd pos)"



definition power_up_cell_free :: "SnakeGame \<Rightarrow> cell \<Rightarrow> bool" where
  "power_up_cell_free g pos \<longleftrightarrow>
     pos \<notin> set (snake g) \<and> pos \<noteq> food g \<and> \<not> is_obstacle_at g (fst pos) (snd pos)"

definition pi_cell_free :: "pi_Game \<Rightarrow> cell \<Rightarrow> bool" where
  "pi_cell_free g pos \<longleftrightarrow>
     \<not> pi_check_collision (pi_snake g) (fst pos) (snd pos) \<and> \<not> pi_is_obstacle g (fst pos) (snd pos)"

definition ultra_cell_free :: "ultra_Game \<Rightarrow> cell \<Rightarrow> bool" where
  "ultra_cell_free g pos \<longleftrightarrow>
     \<not> ultra_check_collision (ultra_snake g) (fst pos) (snd pos) \<and> \<not> ultra_is_obstacle g (fst pos) (snd pos)"

text \<open>A board on which no cell of the grid passes the spawner's test.\<close>

definition board_full :: "SnakeGame \<Rightarrow> bool" where
  "board_full g \<longleftrightarrow>
     (\<forall>x \<in> {0..<GRID_WIDTH}. \<forall>y \<in> {0..<GRID_HEIGHT}. \<not> food_cell_free g (x, y))"

definition ultra_board_full :: "ultra_Game \<Rightarrow> bool" where
  "ultra_board_full g \<longleftrightarrow>
     (\<forall>x \<in> {0..<ULTRA_GRID_WIDTH}. \<forall>y \<in> {0..<ULTRA_GRID_HEIGHT}. \<not> ultra_cell_free g (x, y))"

definition pi_board_full :: "pi_Game \<Rightarrow> bool" where
  "pi_board_full g \<longleftrightarrow>
     (\<forall>x \<in> {0..<PI_GRID_WIDTH}. \<forall>y \<in> {0..<PI_GRID_HEIGHT}. \<not> pi_cell_free g (x, y))"

text \<open>
  A path through every cell of a \<open>w\<close> by \<open>h\<close> grid, row by row in alternating
  direction, starting at (0,0); consecutive cells are neighbours.
\<close>

definition serpentine :: "int \<Rightarrow> int \<Rightarrow> cell list" where
  "serpentine w h =
     concat (map (\<lambda>y. map (\<lambda>x. (if even y then x else w - 1 - x, y)) [0..w - 1]) [0..h - 1])"

text \<open>Boards that the snake fills completely, its head on (0,0).\<close>

definition retro_full_board :: SnakeGame where
  "retro_full_board = retro_game0\<lparr>snake := serpentine GRID_WIDTH GRID_HEIGHT\<rparr>"

definition ultra_full_board :: ultra_Game where
  "ultra_full_board =
     \<lparr>ultra_snake = (ultra_Snake_init 0 0)\<lparr>ultra_segments :=
         ultra_SnakeSegment_init 0 0 True
           # map (\<lambda>pos. ultra_SnakeSegment_init (fst pos) (snd pos) False)
               (tl (serpentine ULTRA_GRID_WIDTH ULTRA_GRID_HEIGHT))\<rparr>,
      ultra_apple = Some \<lparr>ultra_apple_x = 0, ultra_apple_y = 0, ultra_pulse_time = 0\<rparr>,
      ultra_obstacles = [], ultra_score = 23990, ultra_apples_eaten = 2399,
      ultra_game_over = False, ultra_paused = False\<rparr>"

definition pi_game0 :: pi_Game where
  "pi_game0 =
     \<lparr>pi_snake = pi_Snake_init 16 12, pi_apple = None, pi_obstacles = [], pi_score = 0,
      pi_apples_eaten = 0, pi_game_over = False, pi_paused = False,
      pi_particle_system = pi_ParticleSystem_init, pi_frame_count = 0, pi_last_fps_time = 0,
      pi_current_fps = 0\<rparr>"

definition pi_full_board :: pi_Game where
  "pi_full_board = pi_game0\<lparr>pi_snake := (pi_Snake_init 0 0)\<lparr>pi_segments := serpentine PI_GRID_WIDTH PI_GRID_HEIGHT\<rparr>\<rparr>"


text \<open>The retro game over, a particle of the explosion still alive.\<close>

definition retro_over :: SnakeGame where
  "retro_over = retro_game0\<lparr>state := GAME_OVER, particles := [live_particle]\<rparr>"

text \<open>
  The states the retro game can be in: what \<open>reset_game\<close> builds (from whatever the
  object held before), and what an iteration of the main loop makes of such a state.
\<close>

inductive reachable :: "SnakeGame \<Rightarrow> bool" where
  reset: "reset_game g w = Some (g', w') \<Longrightarrow> reachable g'"
| step: "reachable g \<Longrightarrow> run_iteration events keys g w = Returns (running, g', w') \<Longrightarrow> reachable g'"

text \<open>
  The states a Pi snake can be in: what the constructor builds, and what the methods
  that change a snake (and the game's speed-up of \<open>move_delay\<close>) make of such a state.
\<close>

inductive pi_reachable :: "pi_Snake \<Rightarrow> bool" where
  init: "pi_reachable (pi_Snake_init start_x start_y)"
| set_direction: "pi_reachable s \<Longrightarrow> pi_reachable (pi_set_direction d s)"
| grow: "pi_reachable s \<Longrightarrow> pi_reachable (pi_grow s)"
| move: "pi_reachable s \<Longrightarrow> pi_move s = Inr s' \<Longrightarrow> pi_reachable s'"
| update: "pi_reachable s \<Longrightarrow> pi_Snake_update dt s = Inr s' \<Longrightarrow> pi_reachable s'"
| speed_up: "pi_reachable s \<Longrightarrow> pi_reachable (s\<lparr>pi_move_delay := delay\<rparr>)"

text \<open>Two game states that differ at most in the particle list, or in the obstacle list.\<close>

definition only_particles :: "SnakeGame \<Rightarrow> SnakeGame \<Rightarrow> bool" where
  "only_particles g g' \<longleftrightarrow> g' = g\<lparr>particles := particles g'\<rparr>"

definition only_obstacles :: "SnakeGame \<Rightarrow> SnakeGame \<Rightarrow> bool" where
  "only_obstacles g g' \<longleftrightarrow> g' = g\<lparr>obstacles := obstacles g'\<rparr>"

text \<open>A SHRINK power-up.\<close>

definition shrink_item :: PowerUp where
  "shrink_item = grow_item\<lparr>pu_type := SHRINK\<rparr>"

text \<open>
  The cell the retro snake's head moves to on the next tick, and whether that move ends
  the game.
\<close>

definition new_head_of :: "SnakeGame \<Rightarrow> cell" where
  "new_head_of g =
     (fst (hd (snake g)) + fst (direction_value (direction g)),
      snd (hd (snake g)) + snd (direction_value (direction g)))"

definition blocked :: "SnakeGame \<Rightarrow> bool" where
  "blocked g \<longleftrightarrow> check_collision g (new_head_of g) \<and> \<not> invincible g"

(*THEOREMS*)

section \<open>Power-up GROW\<close>

lemma grow_loop_3: "sn \<noteq> [] \<Longrightarrow> grow_loop 3 sn = sn @ replicate 3 (last sn)"
  by (simp add: numeral_3_eq_3)

text \<open>
  C10.  Applying a GROW power-up to a snake with at least one segment appends the
  current tail cell three times: the new body is the old one followed by three copies of
  the old tail, so the length grows by exactly 3 and the body overlaps itself.
\<close>

theorem grow_power_up_appends_tail:
  assumes "pu_type power_up = GROW" and "snake g \<noteq> []"
  shows "snake (apply_power_up power_up g) = snake g @ replicate 3 (last (snake g))
       \<and> length (snake (apply_power_up power_up g)) = length (snake g) + 3
       \<and> \<not> distinct (snake (apply_power_up power_up g))"
proof -
  have eq: "snake (apply_power_up power_up g) = snake g @ replicate 3 (last (snake g))"
    using assms by (simp add: apply_power_up_def grow_loop_3)
  show ?thesis unfolding eq by (simp add: numeral_3_eq_3)
qed

theorem grow_power_up_appends_tail_witness:
  "pu_type grow_item = GROW \<and> snake retro_game0 \<noteq> []
   \<and> snake (apply_power_up grow_item retro_game0) = [(20, 15), (20, 15), (20, 15), (20, 15)]"
  using grow_power_up_appends_tail [of grow_item retro_game0]
  by (simp add: grow_item_def retro_game0_def numeral_3_eq_3)

section \<open>Particles are swept\<close>

lemma update_particles_loop_eq:
  "update_particles_loop ps = map Particle_update (filter (\<lambda>p. p_lifetime p > 1) ps)"
  by (induction ps) (auto simp: Particle_update_def Let_def)

text \<open>
  C8.  After an update every particle of the list is the advanced copy of a particle
  whose lifetime was positive before the call, and as many particles remain as passed the
  test (Pi: lifetime above 0 before the call; retro: lifetime still above 0 after the
  decrement).  So no particle whose lifetime was at most 0 before the call remains.
\<close>

theorem particle_cleanup:
  "(\<forall>q \<in> set (pi_particles (pi_ParticleSystem_update dt ps)).
      \<exists>p \<in> set (pi_particles ps). pi_lifetime p > 0 \<and> q = pi_Particle_update dt p)
   \<and> length (pi_particles (pi_ParticleSystem_update dt ps))
       = length (filter (\<lambda>p. pi_lifetime p > 0) (pi_particles ps))
   \<and> (\<forall>q \<in> set (particles (update_particles g)).
      \<exists>p \<in> set (particles g). p_lifetime p > 0 \<and> q = Particle_update p)
   \<and> length (particles (update_particles g))
       = length (filter (\<lambda>p. p_lifetime p > 1) (particles g))"
proof -
  have "\<And>p. p \<in> set (particles g) \<Longrightarrow> 1 < p_lifetime p \<Longrightarrow>
          \<exists>p' \<in> set (particles g). p_lifetime p' > 0 \<and> Particle_update p = Particle_update p'"
    by force
  then show ?thesis
    by (auto simp: pi_ParticleSystem_update_def update_particles_def update_particles_loop_eq)
qed

theorem particle_cleanup_witness:
  "pi_particles (pi_ParticleSystem_update (1/2) pi_two_particles)
     = [pi_Particle_update (1/2) pi_live_particle]
   \<and> pi_lifetime pi_dead_particle \<le> 0
   \<and> particles (update_particles (retro_game0\<lparr>particles := [dead_particle, live_particle]\<rparr>))
     = [Particle_update live_particle]
   \<and> p_lifetime dead_particle \<le> 0"
  using particle_cleanup [of "1/2" pi_two_particles "retro_game0\<lparr>particles := [dead_particle, live_particle]\<rparr>"]
  by (simp add: pi_ParticleSystem_update_def pi_two_particles_def pi_dead_particle_def
        pi_live_particle_def update_particles_def dead_particle_def live_particle_def
        Particle_update_def)

section \<open>Direction reversal\<close>

text \<open>
  C4 (as amended).  With more than one segment, a request for the exact opposite of the
  current direction changes nothing in the Pi snake (pending and current direction stay),
  and the retro game keeps its direction when the only arrow key held is the opposite
  one.  With at most one segment the Pi snake accepts the request as the pending direction.
  The retro game has no length test: it keeps its direction at every body length.
\<close>

theorem reversal_request:
  "(length (pi_segments s) > 1 \<longrightarrow> pi_set_direction (opposite (pi_direction s)) s = s)
   \<and> (length (pi_segments s) \<le> 1 \<longrightarrow>
        pi_next_direction (pi_set_direction d s) = d
        \<and> pi_direction (pi_set_direction d s) = pi_direction s)
   \<and> (state g = PLAYING \<and> (\<forall>d'. keys (arrow_key d') \<longleftrightarrow> d' = opposite (direction g)) \<longrightarrow>
        map_option (direction \<circ> fst) (handle_input keys g w) = Some (direction g))"
proof -
  have retro: "map_option (direction \<circ> fst) (handle_input keys g w) = Some (direction g)"
    if p: "state g = PLAYING" and k: "\<forall>d'. keys (arrow_key d') \<longleftrightarrow> d' = opposite (direction g)"
  proof -
    have ks: "keys K_UP \<longleftrightarrow> direction g = DOWN" "keys K_DOWN \<longleftrightarrow> direction g = UP"
      "keys K_LEFT \<longleftrightarrow> direction g = RIGHT" "keys K_RIGHT \<longleftrightarrow> direction g = LEFT"
      using k[rule_format, of UP] k[rule_format, of DOWN] k[rule_format, of LEFT] k[rule_format, of RIGHT]
      by (cases "direction g"; simp)+
    show ?thesis using p ks by (cases "direction g") (simp_all add: handle_input_def)
  qed
  show ?thesis using retro by (simp add: pi_set_direction_def)
qed

theorem reversal_request_witness:
  "length (pi_segments pi_snake2) > 1
   \<and> pi_set_direction (opposite (pi_direction pi_snake2)) pi_snake2 = pi_snake2
   \<and> length (pi_segments (pi_Snake_init 16 12)) \<le> 1
   \<and> pi_next_direction (pi_set_direction LEFT (pi_Snake_init 16 12)) = LEFT
   \<and> state retro_game0 = PLAYING
   \<and> map_option (direction \<circ> fst) (handle_input (only_key K_LEFT) retro_game0 world0) = Some RIGHT"
  using reversal_request [of pi_snake2 LEFT retro_game0 "only_key K_LEFT" world0]
    reversal_request [of "pi_Snake_init 16 12" LEFT retro_game0 "only_key K_LEFT" world0]
  by (simp add: pi_snake2_def pi_Snake_init_def retro_game0_def handle_input_def only_key_def)

text \<open>
  The claim as first stated fails in the retro game: with a body of length 1, heading
  right, and LEFT the only key held, the direction stays RIGHT.
\<close>

theorem reversal_rejected_at_length_one:
  "length (snake retro_game0) = 1 \<and> state retro_game0 = PLAYING \<and> direction retro_game0 = RIGHT
   \<and> opposite (direction retro_game0) = LEFT
   \<and> map_option (direction \<circ> fst) (handle_input (only_key K_LEFT) retro_game0 world0) = Some RIGHT"
  by (simp add: retro_game0_def handle_input_def only_key_def)

section \<open>What the particle bursts and the game-over handler leave alone\<close>

lemma particle_burst_frame:
  "\<exists>ps. fst (particle_burst n x y c v l g r) = g\<lparr>particles := ps\<rparr>"
proof (induction n arbitrary: g r)
  case 0
  have "g = g\<lparr>particles := particles g\<rparr>" by simp
  then show ?case by (metis fst_conv particle_burst.simps(1))
next
  case (Suc n)
  show ?case using Suc[of "g\<lparr>particles := particles g @ [fst (Particle_init x y c (fst (uniform (- v) v r), fst (uniform (- v) v (snd (uniform (- v) v r)))) l (snd (uniform (- v) v (snd (uniform (- v) v r)))))]\<rparr>"]
    by (simp add: split_beta Let_def)
qed

lemma game_over_world:
  assumes "snake g \<noteq> []"
  shows "\<exists>g' r'. game_over g w =
           Inr (g', (if score g > high_score g
                     then save_high_score (g\<lparr>state := GAME_OVER, high_score := score g\<rparr>) w
                     else w)\<lparr>rng := r'\<rparr>)
           \<and> high_score g' = max (score g) (high_score g) \<and> state g' = GAME_OVER
           \<and> snake g' = snake g"
proof -
  obtain h rest where hr: "snake g = h # rest" using assms by (cases "snake g") auto
  define g2 where "g2 = (if score g > high_score g then g\<lparr>state := GAME_OVER, high_score := score g\<rparr>
                         else g\<lparr>state := GAME_OVER\<rparr>)"
  define w1 where "w1 = (if score g > high_score g
                     then save_high_score (g\<lparr>state := GAME_OVER, high_score := score g\<rparr>) w
                     else w)"
  define pb where "pb = particle_burst 30 (real_of_int (fst h * GRID_SIZE + GRID_SIZE div 2))
       (real_of_int (snd h * GRID_SIZE + GRID_SIZE div 2)) RED 6 120 g2 (rng w1)"
  have go: "game_over g w = Inr (fst pb, w1\<lparr>rng := snd pb\<rparr>)"
    by (simp add: game_over_def hr Let_def split_beta g2_def w1_def pb_def)
  obtain ps where ps: "fst pb = g2\<lparr>particles := ps\<rparr>"
    unfolding pb_def using particle_burst_frame by blast
  show ?thesis unfolding go w1_def[symmetric] ps
    by (intro exI[of _ "g2\<lparr>particles := ps\<rparr>"] exI[of _ "snd pb"]) (simp add: g2_def)
qed

section \<open>Self-collision and the tail cell\<close>

lemma ultra_move_body_length [simp]: "length (ultra_move_body i segs) = length segs"
  by (induction i segs rule: ultra_move_body.induct) (subst ultra_move_body.simps, simp)

lemma ultra_move_body_nth:
  "j < length segs \<Longrightarrow>
   prev_of (ultra_move_body i segs ! j) = prev_of (segs ! j) \<and>
   cell_of (ultra_move_body i segs ! j) = (if i \<le> j then prev_of (segs ! (j - 1)) else cell_of (segs ! j))"
proof (induction i segs rule: ultra_move_body.induct)
  case (1 i segs)
  show ?case
  proof (cases "i < length segs")
    case False
    then have "ultra_move_body i segs = segs" by (subst ultra_move_body.simps) simp
    then show ?thesis using 1(2) False by simp
  next
    case True
    let ?segs' = "segs[i := (segs ! i)\<lparr>ultra_x := ultra_prev_x (segs ! (i - 1)),
                                ultra_y := ultra_prev_y (segs ! (i - 1))\<rparr>]"
    have j': "j < length ?segs'" using 1(2) by simp
    have ih: "prev_of (ultra_move_body (i + 1) ?segs' ! j) = prev_of (?segs' ! j) \<and>
      cell_of (ultra_move_body (i + 1) ?segs' ! j) = (if i + 1 \<le> j then prev_of (?segs' ! (j - 1)) else cell_of (?segs' ! j))"
      using 1(1)[OF True j'] .
    have unf: "ultra_move_body i segs = ultra_move_body (i + 1) ?segs'"
      using True by (subst ultra_move_body.simps) simp
    have p: "\<And>k. k < length segs \<Longrightarrow> prev_of (?segs' ! k) = prev_of (segs ! k)"
      using True by (auto simp: nth_list_update)
    have A: "prev_of (ultra_move_body i segs ! j) = prev_of (segs ! j)"
      unfolding unf using ih p[OF 1(2)] by simp
    have B: "cell_of (ultra_move_body i segs ! j) = (if i \<le> j then prev_of (segs ! (j - 1)) else cell_of (segs ! j))"
    proof -
      consider (gt) "i + 1 \<le> j" | (eq) "j = i" | (lt) "j < i" by linarith
      then show ?thesis
      proof cases
        case gt
        then have "j - 1 < length segs" using 1(2) by simp
        then show ?thesis unfolding unf using ih gt p[of "j - 1"] by simp
      next
        case eq
        then show ?thesis unfolding unf using ih True by simp
      next
        case lt
        then show ?thesis unfolding unf using ih True by simp
      qed
    qed
    show ?thesis using A B by simp
  qed
qed


lemma ultra_move_cells:
  assumes ne: "ultra_segments s \<noteq> []"
  shows "\<exists>s'. ultra_move s = Inr s' \<and>
           ultra_cells s' = ultra_new_head s # butlast (ultra_cells s)
                              @ (if ultra_growing s then [last (ultra_cells s)] else [])"
proof -
  obtain h rest where hr: "ultra_segments s = h # rest" using ne by (cases "ultra_segments s") auto
  define segs1 where "segs1 = map (\<lambda>seg. seg\<lparr>ultra_prev_x := ultra_x seg, ultra_prev_y := ultra_y seg\<rparr>) (ultra_segments s)"
  define dx where "dx = fst (direction_value (ultra_next_direction s))"
  define dy where "dy = snd (direction_value (ultra_next_direction s))"
  define segs2 where "segs2 = segs1[0 := (segs1 ! 0)\<lparr>ultra_x := ultra_x (segs1 ! 0) + dx, ultra_y := ultra_y (segs1 ! 0) + dy\<rparr>]"
  define segs3 where "segs3 = ultra_move_body 1 segs2"
  define n where "n = length (ultra_segments s)"
  have len: "length segs1 = n" "length segs2 = n" "length segs3 = n" "0 < n"
    by (simp_all add: segs1_def segs2_def segs3_def n_def hr)
  have prev2: "\<And>k. k < n \<Longrightarrow> prev_of (segs2 ! k) = cell_of (ultra_segments s ! k)"
    using len by (auto simp: segs2_def segs1_def nth_list_update n_def)
  have c3: "\<And>j. j < n \<Longrightarrow> cell_of (segs3 ! j) =
              (if j = 0 then ultra_new_head s else cell_of (ultra_segments s ! (j - 1)))"
  proof -
    fix j assume j: "j < n"
    have "cell_of (segs3 ! j) = (if 1 \<le> j then prev_of (segs2 ! (j - 1)) else cell_of (segs2 ! j))"
      unfolding segs3_def using ultra_move_body_nth[of j segs2 1] j len by simp
    moreover have "cell_of (segs2 ! 0) = ultra_new_head s"
      using len by (simp add: segs2_def segs1_def hr ultra_new_head_def ultra_cells_def dx_def dy_def split_beta)
    ultimately show "cell_of (segs3 ! j) =
              (if j = 0 then ultra_new_head s else cell_of (ultra_segments s ! (j - 1)))"
      using prev2[of "j - 1"] j by (cases j) auto
  qed
  have cells3: "map (\<lambda>seg. cell_of seg) segs3 = ultra_new_head s # butlast (ultra_cells s)"
  proof (rule nth_equalityI)
    show "length (map (\<lambda>seg. cell_of seg) segs3) = length (ultra_new_head s # butlast (ultra_cells s))"
      using len by (simp add: ultra_cells_def n_def)
  next
    fix j assume "j < length (map (\<lambda>seg. cell_of seg) segs3)"
    then have j: "j < n" using len by simp
    show "map (\<lambda>seg. cell_of seg) segs3 ! j = (ultra_new_head s # butlast (ultra_cells s)) ! j"
      using c3[OF j] j len by (cases j) (auto simp: ultra_cells_def nth_butlast n_def)
  qed
  have p3: "prev_of (last segs3) = last (ultra_cells s)"
  proof -
    have "last segs3 = segs3 ! (n - 1)" using len by (metis last_conv_nth length_greater_0_conv)
    moreover have "prev_of (segs3 ! (n - 1)) = prev_of (segs2 ! (n - 1))"
      unfolding segs3_def using ultra_move_body_nth[of "n - 1" segs2 1] len by simp
    moreover have "last (ultra_cells s) = cell_of (ultra_segments s ! (n - 1))"
      using len ne by (simp add: ultra_cells_def last_map last_conv_nth n_def)
    ultimately show ?thesis using prev2[of "n - 1"] len by simp
  qed
  have mv: "ultra_move s =
     (if ultra_growing s then
        Inr (s\<lparr>ultra_direction := ultra_next_direction s,
               ultra_segments := segs3 @ [ultra_SnakeSegment_init (ultra_prev_x (last segs3)) (ultra_prev_y (last segs3)) False],
               ultra_growing := False\<rparr>)
      else Inr (s\<lparr>ultra_direction := ultra_next_direction s, ultra_segments := segs3\<rparr>))"
    by (simp add: ultra_move_def hr Let_def split_beta segs3_def segs2_def segs1_def dx_def dy_def)
  show ?thesis
  proof (cases "ultra_growing s")
    case True
    then show ?thesis using mv cells3 p3
      by (simp add: ultra_cells_def ultra_SnakeSegment_init_def)
  next
    case False
    then show ?thesis using mv cells3 by (simp add: ultra_cells_def)
  qed
qed


lemma ultra_self_collision_cells:
  "ultra_segments s \<noteq> [] \<Longrightarrow>
   ultra_check_self_collision s = Inr (hd (ultra_cells s) \<in> set (drop 1 (ultra_cells s)))"
proof -
  assume "ultra_segments s \<noteq> []"
  then obtain a rest where ar: "ultra_segments s = a # rest" by (cases "ultra_segments s") auto
  have "list_ex (\<lambda>segment. ultra_x segment = ultra_x a \<and> ultra_y segment = ultra_y a) rest
        \<longleftrightarrow> (ultra_x a, ultra_y a) \<in> set (map (\<lambda>seg. (ultra_x seg, ultra_y seg)) rest)"
    by (induction rest) auto
  then show ?thesis
    by (simp add: ultra_check_self_collision_def ultra_get_head_position_def ultra_cells_def ar)
qed

lemma ultra_move_then_check:
  assumes ne: "ultra_segments s \<noteq> []"
  shows "\<exists>s'. ultra_move s = Inr s' \<and>
           ultra_check_self_collision s' =
             Inr (ultra_new_head s \<in> set (if ultra_growing s then ultra_cells s
                                              else butlast (ultra_cells s)))"
proof -
  obtain s' where mv: "ultra_move s = Inr s'"
    and cells: "ultra_cells s' = ultra_new_head s # butlast (ultra_cells s)
                              @ (if ultra_growing s then [last (ultra_cells s)] else [])"
    using ultra_move_cells[OF ne] by blast
  have ne': "ultra_segments s' \<noteq> []" using cells by (auto simp: ultra_cells_def)
  have c: "ultra_cells s \<noteq> []" using ne by (simp add: ultra_cells_def)
  have e: "butlast (ultra_cells s) @ [last (ultra_cells s)] = ultra_cells s" using c by simp
  have "set (ultra_cells s) = insert (last (ultra_cells s)) (set (butlast (ultra_cells s)))"
    using arg_cong[OF e, of set] by simp
  then have "set (drop 1 (ultra_cells s')) = set (if ultra_growing s then ultra_cells s else butlast (ultra_cells s))"
    unfolding cells by simp
  then show ?thesis using mv ultra_self_collision_cells[OF ne'] cells by simp
qed

lemma pi_move_then_check:
  assumes ne: "pi_segments s \<noteq> []"
  shows "\<exists>s'. pi_move s = Inr s' \<and>
           pi_segments s' = pi_new_head s # (if pi_growing s then pi_segments s else butlast (pi_segments s)) \<and>
           pi_check_self_collision s' =
             Inr (pi_new_head s \<in> set (if pi_growing s then pi_segments s
                                           else butlast (pi_segments s)))"
proof -
  obtain h rest where hr: "pi_segments s = h # rest" using ne by (cases "pi_segments s") auto
  show ?thesis
    by (cases h)
       (simp add: pi_move_def hr Let_def split_beta pi_new_head_def pi_check_self_collision_def
          pi_get_head_position_def)
qed

text \<open>
  C1 (as amended).  In the Ultra and Pi programs the self-collision test runs after the
  move: it reports a collision exactly when the new head cell is one of the cells that
  stay occupied, which are the old body without its tail cell when the snake is not
  growing and the whole old body when it is.  In particular a head that arrives on the
  cell the tail has just left is not a collision (body cells distinct, not growing).  In
  the retro program \<open>check_collision\<close> tests the candidate head against every current
  cell before the list changes, so every body cell, the tail cell included, is a collision.
\<close>

theorem self_collision_and_tail:
  "(ultra_segments s \<noteq> [] \<longrightarrow>
      (\<exists>s'. ultra_move s = Inr s' \<and>
         ultra_check_self_collision s' =
           Inr (ultra_new_head s \<in> set (if ultra_growing s then ultra_cells s
                                            else butlast (ultra_cells s)))))
   \<and> (ultra_segments s \<noteq> [] \<and> \<not> ultra_growing s \<and> distinct (ultra_cells s)
        \<and> ultra_new_head s = last (ultra_cells s) \<longrightarrow>
      (\<exists>s'. ultra_move s = Inr s' \<and> ultra_check_self_collision s' = Inr False))
   \<and> (pi_segments ps \<noteq> [] \<longrightarrow>
      (\<exists>ps'. pi_move ps = Inr ps' \<and>
         pi_check_self_collision ps' =
           Inr (pi_new_head ps \<in> set (if pi_growing ps then pi_segments ps
                                          else butlast (pi_segments ps)))))
   \<and> (pos \<in> set (snake g) \<longrightarrow> check_collision g pos)"
proof -
  have tail: "\<exists>s'. ultra_move s = Inr s' \<and> ultra_check_self_collision s' = Inr False"
    if ne: "ultra_segments s \<noteq> []" and ng: "\<not> ultra_growing s" and d: "distinct (ultra_cells s)"
      and t: "ultra_new_head s = last (ultra_cells s)"
  proof -
    have c: "ultra_cells s \<noteq> []" using ne by (simp add: ultra_cells_def)
    have "distinct (butlast (ultra_cells s) @ [last (ultra_cells s)])" using c d by simp
    then have "last (ultra_cells s) \<notin> set (butlast (ultra_cells s))" by simp
    then show ?thesis using ultra_move_then_check[OF ne] ng t by simp
  qed
  have retro: "check_collision g pos" if "pos \<in> set (snake g)"
    using that by (simp add: check_collision_def split_beta)
  show ?thesis using ultra_move_then_check[of s] pi_move_then_check[of ps] tail retro by blast
qed

theorem self_collision_and_tail_witness:
  "ultra_segments ultra_ring \<noteq> [] \<and> \<not> ultra_growing ultra_ring
   \<and> distinct (ultra_cells ultra_ring)
   \<and> ultra_new_head ultra_ring = (6, 5) \<and> last (ultra_cells ultra_ring) = (6, 5)
   \<and> ultra_check_self_collision (projr (ultra_move ultra_ring)) = Inr False
   \<and> pi_segments pi_snake2 \<noteq> []
   \<and> pi_check_self_collision (projr (pi_move pi_snake2)) = Inr False
   \<and> (6, 5) \<in> set (snake retro_ring) \<and> check_collision retro_ring (6, 5)"
proof -
  have f: "ultra_segments ultra_ring \<noteq> []" "\<not> ultra_growing ultra_ring"
    "distinct (ultra_cells ultra_ring)" "ultra_new_head ultra_ring = (6, 5)"
    "last (ultra_cells ultra_ring) = (6, 5)" "pi_segments pi_snake2 \<noteq> []"
    "pi_new_head pi_snake2 = (17, 12)" "\<not> pi_growing pi_snake2"
    "(6, 5) \<in> set (snake retro_ring)"
    by (simp_all add: ultra_ring_def ultra_Snake_init_def ultra_SnakeSegment_init_def
          ultra_cells_def ultra_new_head_def pi_snake2_def pi_Snake_init_def pi_new_head_def
          retro_ring_def retro_game0_def)
  show ?thesis
    using self_collision_and_tail [of ultra_ring pi_snake2 "(6, 5)" retro_ring] f
    by (auto simp: pi_snake2_def pi_Snake_init_def)
qed

lemma move_snake_blocked:
  assumes "snake g = (hx, hy) # rest"
    and "check_collision g (hx + fst (direction_value (direction g)), hy + snd (direction_value (direction g)))"
    and "\<not> invincible g"
  shows "\<exists>g' w'. move_snake g w = Returns (g', w') \<and> state g' = GAME_OVER \<and> snake g' = snake g"
proof -
  have ne: "snake g \<noteq> []" using assms(1) by simp
  obtain g' r' where "game_over g w =
           Inr (g', (if score g > high_score g
                     then save_high_score (g\<lparr>state := GAME_OVER, high_score := score g\<rparr>) w
                     else w)\<lparr>rng := r'\<rparr>)" "state g' = GAME_OVER" "snake g' = snake g"
    using game_over_world[OF ne, of w] by blast
  then show ?thesis using assms by (simp add: move_snake_def split_beta)
qed

text \<open>
  The claim as first stated fails in the retro game: head (5,5) heading right, tail on
  (6,5), food elsewhere; the candidate head is the tail cell, \<open>check_collision\<close> holds and
  the tick ends in GAME_OVER.
\<close>

theorem retro_tail_cell_is_collision:
  "hd (snake retro_ring) = (5, 5) \<and> direction_value (direction retro_ring) = (1, 0)
   \<and> last (snake retro_ring) = (6, 5) \<and> food retro_ring \<noteq> (6, 5)
   \<and> check_collision retro_ring (6, 5)
   \<and> map_option (state \<circ> fst) (returned (move_snake retro_ring world0)) = Some GAME_OVER"
proof -
  have c: "check_collision retro_ring (6, 5)"
    by (simp add: check_collision_def retro_ring_def retro_game0_def)
  have s: "snake retro_ring = (5, 5) # [(5, 6), (6, 6), (6, 5)]"
    and d: "direction retro_ring = RIGHT" and i: "\<not> invincible retro_ring"
    by (simp_all add: retro_ring_def retro_game0_def)
  have c': "check_collision retro_ring (5 + fst (direction_value (direction retro_ring)),
              5 + snd (direction_value (direction retro_ring)))"
    unfolding d using c by simp
  have "\<exists>g' w'. move_snake retro_ring world0 = Returns (g', w') \<and> state g' = GAME_OVER \<and> snake g' = snake retro_ring"
    by (rule move_snake_blocked[OF s c' i])
  then show ?thesis using c by (auto simp: retro_ring_def retro_game0_def)
qed

section \<open>The high-score file\<close>












section \<open>Spawning items\<close>

lemma randint_range: "a \<le> b \<Longrightarrow> a \<le> fst (randint a b r) \<and> fst (randint a b r) \<le> b"
proof -
  assume ab: "a \<le> b"
  then have pos: "0 < nat (b - a + 1)" by simp
  have "shd r mod nat (b - a + 1) < nat (b - a + 1)" using pos by (rule mod_less_divisor)
  then have "int (shd r mod nat (b - a + 1)) < b - a + 1" using ab by linarith
  then show ?thesis by (simp add: randint_def)
qed

lemma randint_snd [simp]: "snd (randint a b r) = stl r"
  by (simp add: randint_def)

lemma draw_cell_in_grid: "0 < w \<Longrightarrow> 0 < h \<Longrightarrow> in_grid w h (draw_cell w h r)"
  using randint_range[of 0 "w - 1" r] randint_range[of 0 "h - 1" "stl r"]
  by (simp add: in_grid_def draw_cell_def)

lemma spawn_food_unfold:
  "spawn_food g r =
     (if food_cell_free g (draw_cell GRID_WIDTH GRID_HEIGHT r)
      then Some (draw_cell GRID_WIDTH GRID_HEIGHT r, stl (stl r))
      else spawn_food g (stl (stl r)))"
  by (subst spawn_food.simps) (simp add: split_beta draw_cell_def food_cell_free_def)

lemma GRID_pos: "0 < GRID_WIDTH" "0 < GRID_HEIGHT"
  by (simp_all add: GRID_WIDTH_def GRID_HEIGHT_def WINDOW_WIDTH_def WINDOW_HEIGHT_def GRID_SIZE_def)

lemma spawn_food_sound:
  assumes "spawn_food g0 r0 = Some y0"
  shows "food_cell_free g0 (fst y0) \<and> in_grid GRID_WIDTH GRID_HEIGHT (fst y0)"
proof (rule spawn_food.raw_induct
    [where P = "\<lambda>g r y. food_cell_free g (fst y) \<and> in_grid GRID_WIDTH GRID_HEIGHT (fst y)",
     OF _ assms])
  fix rec g r y
  assume IH: "\<And>g r y. rec g r = Some y \<Longrightarrow>
                food_cell_free g (fst y) \<and> in_grid GRID_WIDTH GRID_HEIGHT (fst y)"
    and run: "(let (x, r1) = randint 0 (GRID_WIDTH - 1) r;
                   (y, r2) = randint 0 (GRID_HEIGHT - 1) r1
               in if (x, y) \<notin> set (snake g) \<and> \<not> is_obstacle_at g x y
                  then Some ((x, y), r2) else rec g r2) = Some y"
  have body: "(if food_cell_free g (draw_cell GRID_WIDTH GRID_HEIGHT r)
               then Some (draw_cell GRID_WIDTH GRID_HEIGHT r, stl (stl r))
               else rec g (stl (stl r))) = Some y"
    using run by (auto simp: split_beta draw_cell_def food_cell_free_def split: if_splits)
  show "food_cell_free g (fst y) \<and> in_grid GRID_WIDTH GRID_HEIGHT (fst y)"
  proof (cases "food_cell_free g (draw_cell GRID_WIDTH GRID_HEIGHT r)")
    case True
    then have "y = (draw_cell GRID_WIDTH GRID_HEIGHT r, stl (stl r))" using body by simp
    then show ?thesis using True draw_cell_in_grid[OF GRID_pos] by simp
  next
    case False
    then have "rec g (stl (stl r)) = Some y" using body by simp
    then show ?thesis by (rule IH)
  qed
qed

lemma spawn_food_live:
  "food_cell_free g (draw_cell GRID_WIDTH GRID_HEIGHT (sdrop (2 * k) r)) \<Longrightarrow> spawn_food g r \<noteq> None"
proof (induction k arbitrary: r)
  case 0
  then show ?case by (subst spawn_food_unfold) simp
next
  case (Suc k)
  have "sdrop (2 * Suc k) r = sdrop (2 * k) (stl (stl r))" by simp
  then have "spawn_food g (stl (stl r)) \<noteq> None" using Suc by simp
  then show ?case by (subst spawn_food_unfold) simp
qed

lemma spawn_food_full_board:
  assumes "board_full g"
  shows "spawn_food g r = None"
proof (rule ccontr)
  assume "spawn_food g r \<noteq> None"
  then obtain y where "spawn_food g r = Some y" by auto
  then have "food_cell_free g (fst y) \<and> in_grid GRID_WIDTH GRID_HEIGHT (fst y)"
    by (rule spawn_food_sound)
  then show False using assms by (cases "fst y") (auto simp: board_full_def in_grid_def)
qed

lemma spawn_power_up_loop_sound:
  assumes "spawn_power_up_loop t0 c0 g0 w0 = Some y0"
  shows "\<exists>p. fst y0 = g0\<lparr>power_ups := power_ups g0 @ [p]\<rparr> \<and>
             power_up_cell_free g0 (pu_x p, pu_y p) \<and> in_grid GRID_WIDTH GRID_HEIGHT (pu_x p, pu_y p)"
proof (rule spawn_power_up_loop.raw_induct
    [where P = "\<lambda>t c g w y. \<exists>p. fst y = g\<lparr>power_ups := power_ups g @ [p]\<rparr> \<and>
             power_up_cell_free g (pu_x p, pu_y p) \<and> in_grid GRID_WIDTH GRID_HEIGHT (pu_x p, pu_y p)",
     OF _ assms])
  fix rec t c g w y
  assume IH: "\<And>t c g w y. rec t c g w = Some y \<Longrightarrow>
                \<exists>p. fst y = g\<lparr>power_ups := power_ups g @ [p]\<rparr> \<and>
             power_up_cell_free g (pu_x p, pu_y p) \<and> in_grid GRID_WIDTH GRID_HEIGHT (pu_x p, pu_y p)"
    and run: "(let (x, r1) = randint 0 (GRID_WIDTH - 1) (rng w);
          (y, r2) = randint 0 (GRID_HEIGHT - 1) r1;
          w1 = w\<lparr>rng := r2\<rparr>
      in if (x, y) \<notin> set (snake g) \<and> (x, y) \<noteq> food g \<and> \<not> is_obstacle_at g x y then
           (let (now, w2) = time_time w1;
                power_up = \<lparr>pu_x = x, pu_y = y, pu_type = t, pu_duration = 300,
                            pu_color = c, pu_spawn_time = now\<rparr>
            in Some (g\<lparr>power_ups := power_ups g @ [power_up]\<rparr>, w2))
         else rec t c g w1) = Some y"
  let ?d = "draw_cell GRID_WIDTH GRID_HEIGHT (rng w)"
  show "\<exists>p. fst y = g\<lparr>power_ups := power_ups g @ [p]\<rparr> \<and>
             power_up_cell_free g (pu_x p, pu_y p) \<and> in_grid GRID_WIDTH GRID_HEIGHT (pu_x p, pu_y p)"
  proof (cases "power_up_cell_free g ?d")
    case True
    then have "fst y = g\<lparr>power_ups := power_ups g @ [\<lparr>pu_x = fst ?d, pu_y = snd ?d, pu_type = t,
                 pu_duration = 300, pu_color = c, pu_spawn_time = shd (clock w)\<rparr>]\<rparr>"
      using run by (auto simp: split_beta Let_def draw_cell_def power_up_cell_free_def time_time_def split: if_splits)
    then show ?thesis using True draw_cell_in_grid[OF GRID_pos, of "rng w"] by auto
  next
    case False
    then have "rec t c g (w\<lparr>rng := stl (stl (rng w))\<rparr>) = Some y"
      using run by (auto simp: split_beta Let_def draw_cell_def power_up_cell_free_def split: if_splits)
    then show ?thesis by (rule IH)
  qed
qed

lemma spawn_power_up_sound:
  assumes "length (power_ups g) < 3" and "spawn_power_up g w = Some (g', w')"
  shows "\<exists>p. g' = g\<lparr>power_ups := power_ups g @ [p]\<rparr> \<and>
             power_up_cell_free g (pu_x p, pu_y p) \<and> in_grid GRID_WIDTH GRID_HEIGHT (pu_x p, pu_y p)"
  using assms spawn_power_up_loop_sound[of _ _ g _ "(g', w')"]
  by (simp add: spawn_power_up_def split_beta)

lemma PI_GRID_pos: "0 < PI_GRID_WIDTH" "0 < PI_GRID_HEIGHT"
  by (simp_all add: PI_GRID_WIDTH_def PI_GRID_HEIGHT_def)

lemma pi_spawn_apple_loop_unfold:
  "pi_spawn_apple_loop n g r =
     (if n < 100 then
        (if pi_cell_free g (draw_cell PI_GRID_WIDTH PI_GRID_HEIGHT r)
         then (g\<lparr>pi_apple := Some (pi_Apple_init (fst (draw_cell PI_GRID_WIDTH PI_GRID_HEIGHT r))
                                                  (snd (draw_cell PI_GRID_WIDTH PI_GRID_HEIGHT r)))\<rparr>,
               stl (stl r))
         else pi_spawn_apple_loop (n + 1) g (stl (stl r)))
      else (g, r))"
  by (subst pi_spawn_apple_loop.simps) (simp add: split_beta draw_cell_def pi_cell_free_def)

lemma pi_spawn_apple_loop_sound:
  "fst (pi_spawn_apple_loop n g r) = g \<or>
   (\<exists>pos. fst (pi_spawn_apple_loop n g r) = g\<lparr>pi_apple := Some (pi_Apple_init (fst pos) (snd pos))\<rparr>
          \<and> pi_cell_free g pos \<and> in_grid PI_GRID_WIDTH PI_GRID_HEIGHT pos)"
proof (induction n g r rule: pi_spawn_apple_loop.induct)
  case (1 n g r)
  show ?case
  proof (cases "n < 100")
    case False
    then show ?thesis by (subst pi_spawn_apple_loop_unfold, subst pi_spawn_apple_loop_unfold) simp
  next
    case True
    show ?thesis
    proof (cases "pi_cell_free g (draw_cell PI_GRID_WIDTH PI_GRID_HEIGHT r)")
      case free: True
      have "pi_spawn_apple_loop n g r = (g\<lparr>pi_apple := Some (pi_Apple_init (fst (draw_cell PI_GRID_WIDTH PI_GRID_HEIGHT r))
                                                  (snd (draw_cell PI_GRID_WIDTH PI_GRID_HEIGHT r)))\<rparr>,
               stl (stl r))"
        using True free by (subst pi_spawn_apple_loop_unfold) simp
      then show ?thesis using free draw_cell_in_grid[OF PI_GRID_pos, of r]
        by (intro disjI2 exI[of _ "draw_cell PI_GRID_WIDTH PI_GRID_HEIGHT r"]) simp
    next
      case occ: False
      have e: "pi_spawn_apple_loop n g r = pi_spawn_apple_loop (n + 1) g (stl (stl r))"
        using True occ by (subst pi_spawn_apple_loop_unfold) simp
      have "\<not> pi_check_collision (pi_snake g) (fst (randint 0 (PI_GRID_WIDTH - 1) r)) (fst (randint 0 (PI_GRID_HEIGHT - 1) (snd (randint 0 (PI_GRID_WIDTH - 1) r)))) \<and>
            \<not> pi_is_obstacle g (fst (randint 0 (PI_GRID_WIDTH - 1) r)) (fst (randint 0 (PI_GRID_HEIGHT - 1) (snd (randint 0 (PI_GRID_WIDTH - 1) r)))) \<Longrightarrow> False"
        using occ by (simp add: pi_cell_free_def draw_cell_def)
      then show ?thesis unfolding e
        using "1.IH"[OF True, of "randint 0 (PI_GRID_WIDTH - 1) r" "fst (randint 0 (PI_GRID_WIDTH - 1) r)" "stl r"
             "randint 0 (PI_GRID_HEIGHT - 1) (stl r)" "fst (randint 0 (PI_GRID_HEIGHT - 1) (stl r))" "stl (stl r)"]
        by (auto simp: randint_def)
    qed
  qed
qed


lemma ultra_spawn_apple_sound:
  assumes "ultra_spawn_apple g0 r0 = Some y0"
  shows "\<exists>pos. fst y0 = g0\<lparr>ultra_apple := Some \<lparr>ultra_apple_x = fst pos, ultra_apple_y = snd pos, ultra_pulse_time = 0\<rparr>\<rparr>
           \<and> ultra_cell_free g0 pos \<and> in_grid ULTRA_GRID_WIDTH ULTRA_GRID_HEIGHT pos"
proof (rule ultra_spawn_apple.raw_induct
    [where P = "\<lambda>g r y. \<exists>pos. fst y = g\<lparr>ultra_apple := Some \<lparr>ultra_apple_x = fst pos, ultra_apple_y = snd pos, ultra_pulse_time = 0\<rparr>\<rparr>
           \<and> ultra_cell_free g pos \<and> in_grid ULTRA_GRID_WIDTH ULTRA_GRID_HEIGHT pos",
     OF _ assms])
  fix rec g r y
  assume IH: "\<And>g r y. rec g r = Some y \<Longrightarrow>
      \<exists>pos. fst y = g\<lparr>ultra_apple := Some \<lparr>ultra_apple_x = fst pos, ultra_apple_y = snd pos, ultra_pulse_time = 0\<rparr>\<rparr>
           \<and> ultra_cell_free g pos \<and> in_grid ULTRA_GRID_WIDTH ULTRA_GRID_HEIGHT pos"
    and run: "(let (x, r1) = randint 0 (ULTRA_GRID_WIDTH - 1) r;
          (y, r2) = randint 0 (ULTRA_GRID_HEIGHT - 1) r1
      in if \<not> ultra_check_collision (ultra_snake g) x y \<and> \<not> ultra_is_obstacle g x y
         then Some (g\<lparr>ultra_apple := Some \<lparr>ultra_apple_x = x, ultra_apple_y = y, ultra_pulse_time = 0\<rparr>\<rparr>, r2)
         else rec g r2) = Some y"
  let ?d = "draw_cell ULTRA_GRID_WIDTH ULTRA_GRID_HEIGHT r"
  have pos: "0 < ULTRA_GRID_WIDTH" "0 < ULTRA_GRID_HEIGHT"
    by (simp_all add: ULTRA_GRID_WIDTH_def ULTRA_GRID_HEIGHT_def)
  show "\<exists>pos. fst y = g\<lparr>ultra_apple := Some \<lparr>ultra_apple_x = fst pos, ultra_apple_y = snd pos, ultra_pulse_time = 0\<rparr>\<rparr>
           \<and> ultra_cell_free g pos \<and> in_grid ULTRA_GRID_WIDTH ULTRA_GRID_HEIGHT pos"
  proof (cases "ultra_cell_free g ?d")
    case True
    then have "fst y = g\<lparr>ultra_apple := Some \<lparr>ultra_apple_x = fst ?d, ultra_apple_y = snd ?d, ultra_pulse_time = 0\<rparr>\<rparr>"
      using run by (auto simp: split_beta draw_cell_def ultra_cell_free_def split: if_splits)
    then show ?thesis using True draw_cell_in_grid[OF pos, of r] by (intro exI[of _ ?d]) simp
  next
    case False
    then have "rec g (stl (stl r)) = Some y"
      using run by (auto simp: split_beta draw_cell_def ultra_cell_free_def split: if_splits)
    then show ?thesis by (rule IH)
  qed
qed

lemma serpentine_covers:
  assumes a: "0 \<le> x" "x < w" "0 \<le> y" "y < h"
  shows "(x, y) \<in> set (serpentine w h)"
proof -
  let ?x' = "if even y then x else w - 1 - x"
  let ?row = "\<lambda>y. map (\<lambda>x. (if even y then x else w - 1 - x, y)) [0..w - 1]"
  have "?x' \<in> set [0..w - 1]" using a by auto
  moreover have "(x, y) = (if even y then ?x' else w - 1 - ?x', y)" by simp
  ultimately have "(x, y) \<in> (\<lambda>x. (if even y then x else w - 1 - x, y)) ` set [0..w - 1]"
    by (rule image_eqI[rotated])
  then have 1: "(x, y) \<in> set (?row y)"
    by (simp only: set_map)
  have "y \<in> set [0..h - 1]" using a by auto
  then have "?row y \<in> ?row ` set [0..h - 1]" by (rule imageI)
  then have 2: "?row y \<in> set (map ?row [0..h - 1])" by (simp only: set_map)
  show ?thesis unfolding serpentine_def set_concat using 2 1 by (rule UN_I)
qed

lemma serpentine_unfold:
  assumes "0 < w" "0 < h"
  shows "serpentine w h = (0, 0) # (map (\<lambda>x. (if even (0::int) then x else w - 1 - x, 0)) [0 + 1..w - 1]
          @ concat (map (\<lambda>y. map (\<lambda>x. (if even y then x else w - 1 - x, y)) [0..w - 1]) [0 + 1..h - 1]))"
proof -
  have a: "[0..h - 1] = 0 # [0 + 1..h - 1]" using assms by (intro upto_rec1) simp
  have b: "[0..w - 1] = 0 # [0 + 1..w - 1]" using assms by (intro upto_rec1) simp
  show ?thesis
    unfolding serpentine_def
    by (subst a, simp only: list.map concat.simps, subst b)
       (simp only: list.map append_Cons even_zero if_True)
qed

lemma serpentine_head: "0 < w \<Longrightarrow> 0 < h \<Longrightarrow> serpentine w h = (0, 0) # tl (serpentine w h)"
  by (subst (2) serpentine_unfold, simp, simp, subst serpentine_unfold, simp, simp) (simp only: list.sel)

lemma serpentine_set:
  "0 < w \<Longrightarrow> 0 < h \<Longrightarrow> pos \<in> set (serpentine w h) \<Longrightarrow> pos = (0, 0) \<or> pos \<in> set (tl (serpentine w h))"
  by (subst (asm) serpentine_head) simp_all

lemma GRID_values [simp]: "GRID_WIDTH = 40" "GRID_HEIGHT = 30"
  by (simp_all add: GRID_WIDTH_def GRID_HEIGHT_def WINDOW_WIDTH_def WINDOW_HEIGHT_def GRID_SIZE_def)

lemma retro_full_board_full: "board_full retro_full_board"
  using serpentine_covers[of _ 40 _ 30] by (auto simp: board_full_def food_cell_free_def retro_full_board_def)

lemma ultra_full_board_full: "ultra_board_full ultra_full_board"
proof -
  have "ultra_check_collision (ultra_snake ultra_full_board) x y"
    if a: "0 \<le> x" "x < ULTRA_GRID_WIDTH" "0 \<le> y" "y < ULTRA_GRID_HEIGHT" for x y
  proof -
    have p: "0 < ULTRA_GRID_WIDTH" "0 < ULTRA_GRID_HEIGHT"
      by (simp_all add: ULTRA_GRID_WIDTH_def ULTRA_GRID_HEIGHT_def)
    have "(x, y) \<in> set (serpentine ULTRA_GRID_WIDTH ULTRA_GRID_HEIGHT)"
      using a by (rule serpentine_covers)
    then have "(x, y) = (0, 0) \<or> (x, y) \<in> set (tl (serpentine ULTRA_GRID_WIDTH ULTRA_GRID_HEIGHT))"
      by (rule serpentine_set[OF p])
    then show ?thesis
      by (auto simp: ultra_check_collision_def ultra_full_board_def ultra_SnakeSegment_init_def
            list_ex_iff image_iff intro!: bexI[of _ "(x, y)"])
  qed
  then show ?thesis by (auto simp: ultra_board_full_def ultra_cell_free_def)
qed

lemma pi_full_board_full: "pi_board_full pi_full_board"
  using serpentine_covers[of _ PI_GRID_WIDTH _ PI_GRID_HEIGHT]
  by (auto simp: pi_board_full_def pi_cell_free_def pi_full_board_def pi_check_collision_def)

lemma ultra_spawn_apple_full_board:
  assumes "ultra_board_full g"
  shows "ultra_spawn_apple g r = None"
proof (rule ccontr)
  assume "ultra_spawn_apple g r \<noteq> None"
  then obtain y where "ultra_spawn_apple g r = Some y" by auto
  then obtain pos where f: "ultra_cell_free g pos"
    and i: "in_grid ULTRA_GRID_WIDTH ULTRA_GRID_HEIGHT pos"
    using ultra_spawn_apple_sound by blast
  then show False using assms by (cases pos) (auto simp: ultra_board_full_def in_grid_def)
qed

lemma pi_spawn_apple_full_board:
  assumes "pi_board_full g"
  shows "fst (pi_spawn_apple g r) = g"
  using pi_spawn_apple_loop_sound[of 0 g r] assms
  by (auto simp: pi_spawn_apple_def pi_board_full_def in_grid_def)




lemma sconst_draw [simp]: "draw_cell w h (sconst v) = (int (v mod nat w), int (v mod nat h))"
  by (simp add: draw_cell_def randint_def)



text \<open>
  C3 (the code departs from it).  On a board where every cell of the grid is taken by the
  snake or an obstacle, the retro \<open>spawn_food\<close> and the Ultra \<open>spawn_apple\<close> never return,
  whatever the random source draws: their loops have no attempt counter.  (The Pi
  \<open>spawn_apple\<close> gives up after 100 attempts: \<open>pi_spawn_apple_full_board\<close>.)
\<close>

theorem spawn_never_returns_on_full_board:
  "(board_full g \<longrightarrow> spawn_food g r = None)
   \<and> (ultra_board_full ug \<longrightarrow> ultra_spawn_apple ug r = None)"
  using spawn_food_full_board[of g r] ultra_spawn_apple_full_board[of ug r] by blast

theorem spawn_never_returns_on_full_board_witness:
  "board_full retro_full_board \<and> spawn_food retro_full_board (sconst 0) = None
   \<and> ultra_board_full ultra_full_board \<and> ultra_spawn_apple ultra_full_board (sconst 0) = None"
  using spawn_never_returns_on_full_board [of retro_full_board "sconst 0" ultra_full_board]
    retro_full_board_full ultra_full_board_full
  by simp

section \<open>What the retro methods leave alone\<close>

lemma only_particles_refl [simp]: "only_particles g g" "only_particles g (g\<lparr>particles := ps\<rparr>)"
  by (simp_all add: only_particles_def)

lemma only_particles_trans: "only_particles g g1 \<Longrightarrow> only_particles g1 g2 \<Longrightarrow> only_particles g g2"
  unfolding only_particles_def by (metis SnakeGame.update_convs(16) SnakeGame.surjective)

lemma only_obstacles_refl [simp]: "only_obstacles g g" "only_obstacles g (g\<lparr>obstacles := obs\<rparr>)"
  by (simp_all add: only_obstacles_def)

lemma only_obstacles_trans: "only_obstacles g g1 \<Longrightarrow> only_obstacles g1 g2 \<Longrightarrow> only_obstacles g g2"
  unfolding only_obstacles_def by (metis SnakeGame.update_convs(9) SnakeGame.surjective)


lemma only_particles_fields:
  assumes "only_particles g g'"
  shows "snake g' = snake g" "food g' = food g" "power_ups g' = power_ups g"
    "obstacles g' = obstacles g" "score g' = score g" "state g' = state g"
    "level g' = level g" "invincible g' = invincible g" "direction g' = direction g"
proof -
  have e: "g' = g\<lparr>particles := particles g'\<rparr>" using assms by (simp add: only_particles_def)
  show "snake g' = snake g" by (subst e) simp
  show "food g' = food g" by (subst e) simp
  show "power_ups g' = power_ups g" by (subst e) simp
  show "obstacles g' = obstacles g" by (subst e) simp
  show "score g' = score g" by (subst e) simp
  show "state g' = state g" by (subst e) simp
  show "level g' = level g" by (subst e) simp
  show "invincible g' = invincible g" by (subst e) simp
  show "direction g' = direction g" by (subst e) simp
qed

lemma only_obstacles_fields:
  assumes "only_obstacles g g'"
  shows "snake g' = snake g" "food g' = food g" "power_ups g' = power_ups g"
    "particles g' = particles g" "score g' = score g" "state g' = state g"
proof -
  have e: "g' = g\<lparr>obstacles := obstacles g'\<rparr>" using assms by (simp add: only_obstacles_def)
  show "snake g' = snake g" by (subst e) simp
  show "food g' = food g" by (subst e) simp
  show "power_ups g' = power_ups g" by (subst e) simp
  show "particles g' = particles g" by (subst e) simp
  show "score g' = score g" by (subst e) simp
  show "state g' = state g" by (subst e) simp
qed

lemma particle_burst_only: "only_particles g (fst (particle_burst n x y c v l g r))"
proof (induction n arbitrary: g r)
  case 0
  show ?case by simp
next
  case (Suc n)
  let ?p = "fst (Particle_init x y c (fst (uniform (- v) v r), fst (uniform (- v) v (snd (uniform (- v) v r)))) l
                  (snd (uniform (- v) v (snd (uniform (- v) v r)))))"
  let ?r = "snd (Particle_init x y c (fst (uniform (- v) v r), fst (uniform (- v) v (snd (uniform (- v) v r)))) l
                  (snd (uniform (- v) v (snd (uniform (- v) v r)))))"
  have e: "particle_burst (Suc n) x y c v l g r = particle_burst n x y c v l (g\<lparr>particles := particles g @ [?p]\<rparr>) ?r"
    by (simp add: split_beta Let_def)
  show ?case unfolding e
    by (rule only_particles_trans[OF _ Suc]) simp
qed

lemma create_random_particle_only: "only_particles g (fst (create_random_particle pos g r))"
  by (simp add: create_random_particle_def split_beta)

lemma repeat_random_particle_only: "only_particles g (fst (repeat_random_particle n pos g r))"
proof (induction n arbitrary: g r)
  case 0
  show ?case by simp
next
  case (Suc n)
  have e: "repeat_random_particle (Suc n) pos g r =
      repeat_random_particle n pos (fst (create_random_particle pos g r)) (snd (create_random_particle pos g r))"
    by (simp add: split_beta)
  show ?case unfolding e
    by (rule only_particles_trans[OF create_random_particle_only Suc])
qed

lemma create_random_obstacle_only: "only_obstacles g (fst (create_random_obstacle g r))"
  by (simp add: create_random_obstacle_def create_line_obstacle_def create_box_obstacle_def
        create_cross_obstacle_def create_corner_obstacle_def split_beta Let_def)

lemma repeat_create_obstacle_only: "only_obstacles g (fst (repeat_create_obstacle n g r))"
proof (induction n arbitrary: g r)
  case 0
  show ?case by simp
next
  case (Suc n)
  have e: "repeat_create_obstacle (Suc n) g r =
      repeat_create_obstacle n (fst (create_random_obstacle g r)) (snd (create_random_obstacle g r))"
    by (simp add: split_beta)
  show ?case unfolding e
    by (rule only_obstacles_trans[OF create_random_obstacle_only Suc])
qed

lemma generate_obstacles_only: "only_obstacles g (fst (generate_obstacles g r))"
  unfolding generate_obstacles_def Let_def
  by (rule only_obstacles_trans[OF _ repeat_create_obstacle_only]) simp

lemma level_up_fields:
  "snake (fst (level_up g r)) = snake g" "power_ups (fst (level_up g r)) = power_ups g"
  "food (fst (level_up g r)) = food g" "score (fst (level_up g r)) = score g"
  "state (fst (level_up g r)) = state g"
proof -
  let ?g3 = "g\<lparr>level := level g + 1, base_speed := min (base_speed g + 1) 15,
               speed := min (base_speed g + 1) 15\<rparr>"
  let ?go = "generate_obstacles ?g3 r"
  have e: "level_up g r = repeat_random_particle 20 (WINDOW_WIDTH div 2, WINDOW_HEIGHT div 2)
                     ((fst ?go)\<lparr>screen_shake := 10\<rparr>) (snd ?go)"
    by (simp add: level_up_def Let_def split_beta)
  note p = only_particles_fields[OF repeat_random_particle_only[of "(fst ?go)\<lparr>screen_shake := 10\<rparr>" 20 _ "snd ?go"]]
  note q = only_obstacles_fields[OF generate_obstacles_only[of ?g3 r]]
  show "snake (fst (level_up g r)) = snake g" unfolding e using p(1) q(1) by simp
  show "power_ups (fst (level_up g r)) = power_ups g" unfolding e using p(3) q(3) by simp
  show "food (fst (level_up g r)) = food g" unfolding e using p(2) q(2) by simp
  show "score (fst (level_up g r)) = score g" unfolding e using p(5) q(5) by simp
  show "state (fst (level_up g r)) = state g" unfolding e using p(6) q(6) by simp
qed


lemma update_effects_loop_fields:
  "snake (update_effects_loop items g) = snake g \<and> food (update_effects_loop items g) = food g
   \<and> power_ups (update_effects_loop items g) = power_ups g
   \<and> state (update_effects_loop items g) = state g"
  by (induction items g rule: update_effects_loop.induct) (simp_all add: Let_def)

lemma update_effects_fields:
  "snake (update_effects g) = snake g" "food (update_effects g) = food g"
  "power_ups (update_effects g) = power_ups g" "state (update_effects g) = state g"
  using update_effects_loop_fields[of "effect_timers g" g] by (simp_all add: update_effects_def)

lemma spawn_power_up_fields:
  assumes "spawn_power_up g w = Some (g', w')"
  shows "snake g' = snake g" "food g' = food g" "state g' = state g"
proof -
  have "g' = g \<or> (\<exists>p. g' = g\<lparr>power_ups := power_ups g @ [p]\<rparr>)"
  proof (cases "length (power_ups g) \<ge> 3")
    case True
    then show ?thesis using assms by (simp add: spawn_power_up_def)
  next
    case False
    then show ?thesis using spawn_power_up_sound[of g w g' w'] assms by auto
  qed
  then show "snake g' = snake g" "food g' = food g" "state g' = state g" by auto
qed

lemma tick_power_ups_fields:
  assumes "tick_power_ups g w = Some (g1, w1)"
  shows "snake g1 = snake g" "food g1 = food g" "state g1 = state g"
proof -
  let ?g2 = "update_effects (g\<lparr>game_time := game_time g + 1\<rparr>)"
  let ?w1 = "w\<lparr>rng := snd (randint 1 200 (rng w))\<rparr>"
  define sp where "sp = (if fst (randint 1 200 (rng w)) = 1 then spawn_power_up ?g2 ?w1 else Some (?g2, ?w1))"
  have t: "tick_power_ups g w =
      (case sp of None \<Rightarrow> None
       | Some (g3, w2) \<Rightarrow> Some (g3\<lparr>power_ups := filter (\<lambda>p. fst (time_time w2) - pu_spawn_time p < 10) (power_ups g3)\<rparr>,
                               snd (time_time w2)))"
    unfolding sp_def tick_power_ups_def Let_def split_beta by (simp split: option.splits)
  obtain g3 w2 where sp': "sp = Some (g3, w2)"
    using assms unfolding t by (cases sp) auto
  have g1: "g1 = g3\<lparr>power_ups := filter (\<lambda>p. fst (time_time w2) - pu_spawn_time p < 10) (power_ups g3)\<rparr>"
    using assms unfolding t sp' by simp
  have "snake g3 = snake ?g2 \<and> food g3 = food ?g2 \<and> state g3 = state ?g2"
    using sp'[unfolded sp_def] spawn_power_up_fields[of ?g2 ?w1 g3 w2] by (auto split: if_splits)
  then show "snake g1 = snake g" "food g1 = food g" "state g1 = state g"
    using g1 by (simp_all add: update_effects_fields)
qed

lemma pop_loop_length: "length (pop_loop n sn) = length sn - n"
  by (induction n arbitrary: sn) simp_all

lemma grow_loop_nonempty: "sn \<noteq> [] \<Longrightarrow> grow_loop n sn \<noteq> []"
  by (induction n arbitrary: sn) simp_all

lemma apply_power_up_nonempty: "snake g \<noteq> [] \<Longrightarrow> snake (apply_power_up p g) \<noteq> []"
proof -
  assume ne: "snake g \<noteq> []"
  have "length (snake g) > 3 \<Longrightarrow> pop_loop (nat (min 2 (int (length (snake g)) - 1))) (snake g) \<noteq> []"
  proof -
    assume l: "length (snake g) > 3"
    have "length (pop_loop (nat (min 2 (int (length (snake g)) - 1))) (snake g)) = length (snake g) - 2"
      using l by (simp add: pop_loop_length min_def)
    then show ?thesis using l by auto
  qed
  then show ?thesis using ne grow_loop_nonempty[OF ne, of 3]
    by (cases "pu_type p") (simp_all add: apply_power_up_def)
qed

lemma apply_power_up_shrink:
  "pu_type p = SHRINK \<Longrightarrow>
   length (snake (apply_power_up p g)) = (if length (snake g) > 3 then length (snake g) - 2 else length (snake g))"
  by (simp add: apply_power_up_def pop_loop_length min_def)

lemma collect_power_ups_nonempty:
  "snake g \<noteq> [] \<Longrightarrow> snake (fst (collect_power_ups new_head items g r)) \<noteq> []"
proof (induction items arbitrary: g r)
  case Nil
  then show ?case by simp
next
  case (Cons p items)
  show ?case
  proof (cases "new_head = (pu_x p, pu_y p)")
    case False
    then show ?thesis using Cons by simp
  next
    case True
    let ?g2 = "(apply_power_up p g)\<lparr>power_ups := remove1 p (power_ups (apply_power_up p g))\<rparr>"
    let ?cp = "create_power_up_particles (pu_x p, pu_y p) (pu_color p) ?g2 r"
    have "snake (fst ?cp) = snake ?g2"
      unfolding create_power_up_particles_def Let_def
      by (rule only_particles_fields(1)[OF particle_burst_only])
    then have "snake (fst ?cp) \<noteq> []" using apply_power_up_nonempty[OF Cons(2), of p] by simp
    then have "snake (fst (collect_power_ups new_head items (fst ?cp) (snd ?cp))) \<noteq> []"
      by (rule Cons(1))
    then show ?thesis using True by (simp add: split_beta Let_def)
  qed
qed

lemma collect_power_ups_none:
  "\<not> list_ex (\<lambda>p. (pu_x p, pu_y p) = new_head) items \<Longrightarrow> collect_power_ups new_head items g r = (g, r)"
  by (induction items arbitrary: g r) auto

lemma eat_food_fields:
  assumes "eat_food new_head g w = Some (g', w')"
  shows "snake g' = snake g" "power_ups g' = power_ups g"
proof -
  let ?g1 = "g\<lparr>score := score g + (if double_points g then 10 * 2 else 10)\<rparr>"
  obtain f r1 where sf: "spawn_food ?g1 (rng w) = Some (f, r1)"
    using assms by (auto simp: eat_food_def Let_def split: option.splits)
  let ?cf = "create_food_particles new_head (?g1\<lparr>food := f\<rparr>) r1"
  have g': "g' = fst (if score (fst ?cf) div 100 > level (fst ?cf) - 1 then level_up (fst ?cf) (snd ?cf) else (fst ?cf, snd ?cf))"
    using assms sf by (auto simp: eat_food_def Let_def split_beta)
  have cf: "only_particles (?g1\<lparr>food := f\<rparr>) (fst ?cf)"
    unfolding create_food_particles_def Let_def by (rule particle_burst_only)
  show "snake g' = snake g" unfolding g'
    using only_particles_fields(1)[OF cf] level_up_fields(1)[of "fst ?cf" "snd ?cf"] by simp
  show "power_ups g' = power_ups g" unfolding g'
    using only_particles_fields(3)[OF cf] level_up_fields(2)[of "fst ?cf" "snd ?cf"] by simp
qed


lemma move_snake_cases:
  assumes "move_snake g w = Returns (g', w')"
  shows "snake g \<noteq> []"
    and "blocked g \<Longrightarrow> snake g' = snake g \<and> state g' = GAME_OVER"
    and "\<not> blocked g \<Longrightarrow>
          \<exists>g2 r. g' = fst (collect_power_ups (new_head_of g) (power_ups g) g2 r)
             \<and> snake g2 = (if new_head_of g = food g then new_head_of g # snake g
                            else new_head_of g # butlast (snake g))"
proof -
  show ne: "snake g \<noteq> []" using assms by (auto simp: move_snake_def)
  then obtain hx hy rest where hr: "snake g = (hx, hy) # rest" by (cases "snake g") auto
  have nh: "new_head_of g = (hx + fst (direction_value (direction g)), hy + snd (direction_value (direction g)))"
    by (simp add: new_head_of_def hr)
  show "snake g' = snake g \<and> state g' = GAME_OVER" if b: "blocked g"
  proof -
    obtain g'' r' where "game_over g w = Inr (g'', (if score g > high_score g
                     then save_high_score (g\<lparr>state := GAME_OVER, high_score := score g\<rparr>) w
                     else w)\<lparr>rng := r'\<rparr>)" "state g'' = GAME_OVER" "snake g'' = snake g"
      using game_over_world[OF ne, of w] by blast
    then show ?thesis using assms b
      by (simp add: move_snake_def hr split_beta blocked_def nh)
  qed
  show "\<exists>g2 r. g' = fst (collect_power_ups (new_head_of g) (power_ups g) g2 r)
             \<and> snake g2 = (if new_head_of g = food g then new_head_of g # snake g
                            else new_head_of g # butlast (snake g))" if nb: "\<not> blocked g"
  proof -
    let ?nh = "new_head_of g"
    let ?g1 = "g\<lparr>snake := ?nh # snake g\<rparr>"
    define step where "step = (if ?nh = food ?g1 then eat_food ?nh ?g1 w
                         else Some (?g1\<lparr>snake := butlast (snake ?g1)\<rparr>, w))"
    have m: "move_snake g w =
       (case step of None \<Rightarrow> Loops
        | Some (g2, w1) \<Rightarrow> Returns (fst (collect_power_ups ?nh (power_ups g2) g2 (rng w1)),
                                     w1\<lparr>rng := snd (collect_power_ups ?nh (power_ups g2) g2 (rng w1))\<rparr>))"
    proof -
      define nhv where "nhv = new_head_of g"
      have nhv: "(hx + fst (direction_value (direction g)), hy + snd (direction_value (direction g))) = nhv"
        by (simp add: nhv_def nh)
      have c: "(check_collision g nhv \<and> \<not> invincible g) = False"
        using nb by (simp add: blocked_def nhv_def)
      have "move_snake g w =
         (case (if nhv = food g then eat_food nhv (g\<lparr>snake := nhv # snake g\<rparr>) w
                else Some (g\<lparr>snake := nhv # butlast (snake g)\<rparr>, w)) of
            None \<Rightarrow> Loops
          | Some (g2, w1) \<Rightarrow> Returns (fst (collect_power_ups nhv (power_ups g2) g2 (rng w1)),
                                     w1\<lparr>rng := snd (collect_power_ups nhv (power_ups g2) g2 (rng w1))\<rparr>))"
        unfolding move_snake_def by (simp add: hr split_beta Let_def nhv c split: option.splits)
      then show ?thesis unfolding step_def nhv_def using ne by simp
    qed
    obtain g2 w1 where st: "step = Some (g2, w1)" using assms unfolding m by (cases step) auto
    have g': "g' = fst (collect_power_ups ?nh (power_ups g2) g2 (rng w1))"
      using assms unfolding m st by simp
    have f: "snake g2 = (if ?nh = food g then ?nh # snake g else ?nh # butlast (snake g))
             \<and> power_ups g2 = power_ups g"
    proof (cases "?nh = food g")
      case True
      then have "eat_food ?nh ?g1 w = Some (g2, w1)" using st unfolding step_def by simp
      then show ?thesis using eat_food_fields[of ?nh ?g1 w g2 w1] True by simp
    next
      case False
      then have "g2 = ?g1\<lparr>snake := butlast (snake ?g1)\<rparr>" using st unfolding step_def by simp
      then show ?thesis using False ne by simp
    qed
    show ?thesis using g' f by (intro exI[of _ g2] exI[of _ "rng w1"]) simp
  qed
qed

lemma move_snake_nonempty:
  assumes "move_snake g w = Returns (g', w')"
  shows "snake g' \<noteq> []"
proof (cases "blocked g")
  case True
  then show ?thesis using move_snake_cases(1,2)[OF assms] by simp
next
  case False
  then obtain g2 r where "g' = fst (collect_power_ups (new_head_of g) (power_ups g) g2 r)"
    and "snake g2 \<noteq> []"
    using move_snake_cases(3)[OF assms] by (auto split: if_splits)
  then show ?thesis using collect_power_ups_nonempty by simp
qed

lemma update_game_nonempty:
  assumes "update_game g w = Returns (g', w')" and "snake g \<noteq> []"
  shows "snake g' \<noteq> []"
proof (cases "state g = PLAYING")
  case False
  then show ?thesis using assms by (simp add: update_game_def)
next
  case True
  then obtain g1 w1 where "tick_power_ups g w = Some (g1, w1)" and "move_snake g1 w1 = Returns (g', w')"
    using assms(1) by (auto simp: update_game_def split: option.splits)
  then show ?thesis using move_snake_nonempty by blast
qed

lemma handle_events_state:
  "handle_events events (running, g) = (running', g') \<Longrightarrow>
   g' = g\<lparr>state := state g'\<rparr> \<and> (state g \<noteq> PLAYING \<longrightarrow> state g' \<noteq> PLAYING)
   \<and> (state g = GAME_OVER \<longrightarrow> state g' = GAME_OVER)"
proof (induction events arbitrary: running g)
  case Nil
  then show ?case by simp
next
  case (Cons e events)
  obtain r1 g1 where s1: "(case e of
          QUIT \<Rightarrow> (False, g)
        | KEYDOWN key \<Rightarrow>
            if key = K_ESCAPE then
              (if state g = PLAYING then (running, g\<lparr>state := PAUSED\<rparr>)
               else if state g = PAUSED then (running, g\<lparr>state := MENU\<rparr>)
               else (False, g))
            else (running, g)
        | OTHER_EVENT \<Rightarrow> (running, g)) = (r1, g1)" by fastforce
  have g1: "g1 = g\<lparr>state := state g1\<rparr> \<and> (state g \<noteq> PLAYING \<longrightarrow> state g1 \<noteq> PLAYING)
   \<and> (state g = GAME_OVER \<longrightarrow> state g1 = GAME_OVER)"
    using s1 by (cases e) (auto split: if_splits)
  have "handle_events events (r1, g1) = (running', g')" using Cons(2) s1 by simp
  then have ih: "g' = g1\<lparr>state := state g'\<rparr> \<and> (state g1 \<noteq> PLAYING \<longrightarrow> state g' \<noteq> PLAYING)
   \<and> (state g1 = GAME_OVER \<longrightarrow> state g' = GAME_OVER)" by (rule Cons(1))
  have "g' = g\<lparr>state := state g'\<rparr>"
    by (subst conjunct1[OF ih], subst conjunct1[OF g1]) simp
  then show ?case using ih g1 by blast
qed

lemma reset_game_snake:
  assumes "reset_game g w = Some (g', w')"
  shows "snake g' = [(GRID_WIDTH div 2, GRID_HEIGHT div 2)]"
proof -
  let ?g1 = "g\<lparr>snake := [(GRID_WIDTH div 2, GRID_HEIGHT div 2)], direction := RIGHT\<rparr>"
  obtain f r1 where sf: "spawn_food ?g1 (rng w) = Some (f, r1)"
    using assms by (auto simp: reset_game_def Let_def split: option.splits)
  let ?g2 = "?g1\<lparr>food := f, score := 0, high_score := load_high_score w, speed := 8,
                        base_speed := 8, power_ups := [], obstacles := [], effect_timers := [],
                        invincible := False, double_points := False, game_time := 0, level := 1\<rparr>"
  have "g' = fst (generate_obstacles ?g2 r1)"
    using assms sf by (auto simp: reset_game_def Let_def split_beta)
  then show ?thesis using only_obstacles_fields(1)[OF generate_obstacles_only[of ?g2 r1]] by simp
qed

lemma handle_input_nonempty:
  assumes "handle_input keys g w = Some (g', w')" and "snake g \<noteq> []"
  shows "snake g' \<noteq> []"
proof (cases "state g = MENU \<and> keys K_SPACE")
  case True
  then obtain g1 where "reset_game g w = Some (g1, w')" and "g' = g1\<lparr>state := PLAYING\<rparr>"
    using assms(1) by (auto simp: handle_input_def split: option.splits)
  then show ?thesis using reset_game_snake by fastforce
next
  case False
  then have "snake g' = snake g"
    using assms(1) by (cases "state g") (auto simp: handle_input_def split: if_splits)
  then show ?thesis using assms(2) by simp
qed

lemma run_iteration_nonempty:
  assumes "run_iteration events keys g w = Returns (running, g', w')" and "snake g \<noteq> []"
  shows "snake g' \<noteq> []"
proof -
  obtain r1 g1 where he: "handle_events events (True, g) = (r1, g1)" by fastforce
  obtain g2 w1 where hi: "handle_input keys g1 w = Some (g2, w1)"
    using assms(1) he by (auto simp: run_iteration_def split: option.splits)
  obtain g3 w2 where ug: "update_game g2 w1 = Returns (g3, w2)"
    using assms(1) he hi by (auto simp: run_iteration_def split: outcome.splits)
  have g': "g' = fst (apply_screen_shake (update_particles g3) (rng w2))"
    using assms(1) he hi ug by (simp add: run_iteration_def split_beta Let_def)
  have "g1 = g\<lparr>state := state g1\<rparr>" using handle_events_state[OF he] by simp
  then have "snake g1 = snake g" by (metis SnakeGame.select_convs(1) SnakeGame.surjective SnakeGame.update_convs(15))
  then have "snake g2 \<noteq> []" using handle_input_nonempty[OF hi] assms(2) by simp
  then have "snake g3 \<noteq> []" using update_game_nonempty[OF ug] by simp
  then show ?thesis unfolding g' by (simp add: apply_screen_shake_def update_particles_def split_beta)
qed

lemma pi_move_nonempty: "pi_move s = Inr s' \<Longrightarrow> pi_segments s' \<noteq> []"
  by (cases "pi_segments s") (auto simp: pi_move_def Let_def split_beta split: if_splits)

lemma pi_Snake_update_nonempty:
  "pi_Snake_update dt s = Inr s' \<Longrightarrow> pi_segments s \<noteq> [] \<Longrightarrow> pi_segments s' \<noteq> []"
  using pi_move_nonempty[of "s\<lparr>pi_move_timer := 0\<rparr>" s']
  by (auto simp: pi_Snake_update_def Let_def split: if_splits)

lemma handle_input_idle:
  assumes "state g \<noteq> PLAYING" and "keys K_SPACE \<longrightarrow> state g = GAME_OVER"
  shows "handle_input keys g w = Some (g\<lparr>state := (if keys K_SPACE then MENU else state g)\<rparr>, w)"
  using assms by (cases "state g") (auto simp: handle_input_def)

section \<open>The snake is never empty\<close>

text \<open>
  C9.  In every reachable state the snake's segment list is non-empty: in the retro game
  after \<open>reset_game\<close> and any number of iterations of the main loop, in the Pi program
  after the constructor and any sequence of calls of the snake's methods.  The operations
  that remove segments keep at least one: \<open>Snake.move\<close> and the tick of \<open>update_game\<close>
  drop the tail only after inserting the new head, and the SHRINK power-up removes two
  segments only from a snake longer than three.
\<close>

theorem snake_never_empty:
  "(reachable g \<longrightarrow> snake g \<noteq> [])
   \<and> (pi_reachable s \<longrightarrow> pi_segments s \<noteq> [])
   \<and> (pi_move s0 = Inr s1 \<longrightarrow> pi_segments s1 \<noteq> [])
   \<and> (snake g0 \<noteq> [] \<longrightarrow> snake (apply_power_up p g0) \<noteq> [])
   \<and> (pu_type p = SHRINK \<longrightarrow>
        length (snake (apply_power_up p g0))
          = (if length (snake g0) > 3 then length (snake g0) - 2 else length (snake g0)))
   \<and> (move_snake g1 w = Returns (g2, w') \<longrightarrow> snake g2 \<noteq> [])"
proof -
  have a: "reachable g \<Longrightarrow> snake g \<noteq> []"
  proof (induction rule: reachable.induct)
    case (reset g w g' w')
    then show ?case using reset_game_snake by fastforce
  next
    case (step g events keys w running g' w')
    then show ?case using run_iteration_nonempty by blast
  qed
  have b: "pi_reachable s \<Longrightarrow> pi_segments s \<noteq> []"
  proof (induction rule: pi_reachable.induct)
    case (init start_x start_y)
    show ?case by (simp add: pi_Snake_init_def)
  next
    case (set_direction s d)
    then show ?case by (simp add: pi_set_direction_def)
  next
    case (grow s)
    then show ?case by (simp add: pi_grow_def)
  next
    case (move s s')
    then show ?case using pi_move_nonempty by blast
  next
    case (update s dt s')
    then show ?case using pi_Snake_update_nonempty by blast
  next
    case (speed_up s delay)
    then show ?case by simp
  qed
  show ?thesis
    using a b pi_move_nonempty[of s0 s1] apply_power_up_nonempty[of g0 p]
      apply_power_up_shrink[of p g0] move_snake_nonempty[of g1 w g2 w']
    by blast
qed


theorem snake_never_empty_witness:
  "reachable (fst (the (reset_game retro_game0 world0)))
   \<and> snake (fst (the (reset_game retro_game0 world0))) \<noteq> []
   \<and> pi_reachable (pi_Snake_init 16 12)
   \<and> pi_segments (pi_Snake_init 16 12) \<noteq> []
   \<and> pi_move (pi_Snake_init 16 12) = Inr ((pi_Snake_init 16 12)\<lparr>pi_segments := [(17, 12)]\<rparr>)
   \<and> pi_segments ((pi_Snake_init 16 12)\<lparr>pi_segments := [(17, 12)]\<rparr>) \<noteq> []
   \<and> snake retro_game0 \<noteq> []
   \<and> snake (apply_power_up shrink_item retro_game0) \<noteq> []
   \<and> pu_type shrink_item = SHRINK
   \<and> length (snake (apply_power_up shrink_item retro_game0)) = 1
   \<and> length (snake retro_game0) = 1
   \<and> move_snake retro_game0 world0 = Returns (retro_game0\<lparr>snake := [(21, 15)]\<rparr>, world0)
   \<and> snake (retro_game0\<lparr>snake := [(21, 15)]\<rparr>) \<noteq> []"
proof -
  let ?g1 = "retro_game0\<lparr>snake := [(GRID_WIDTH div 2, GRID_HEIGHT div 2)], direction := RIGHT\<rparr>"
  have "food_cell_free ?g1 (draw_cell GRID_WIDTH GRID_HEIGHT (sdrop (2 * 0) (rng world0)))"
    by (simp add: food_cell_free_def draw_cell_def randint_def world0_def retro_game0_def
        is_obstacle_at_def in_grid_def split_beta)
  then have "spawn_food ?g1 (rng world0) \<noteq> None" by (rule spawn_food_live)
  then have "reset_game retro_game0 world0 \<noteq> None"
    by (auto simp: reset_game_def Let_def split_beta)
  then have "reset_game retro_game0 world0
      = Some (fst (the (reset_game retro_game0 world0)), snd (the (reset_game retro_game0 world0)))"
    by auto
  then have r: "reachable (fst (the (reset_game retro_game0 world0)))" by (rule reachable.reset)
  have m: "pi_move (pi_Snake_init 16 12) = Inr ((pi_Snake_init 16 12)\<lparr>pi_segments := [(17, 12)]\<rparr>)"
    by (simp add: pi_move_def pi_Snake_init_def Let_def)
  have u: "move_snake retro_game0 world0 = Returns (retro_game0\<lparr>snake := [(21, 15)]\<rparr>, world0)"
    by (simp add: move_snake_def retro_game0_def world0_def check_collision_def is_obstacle_at_def
        Let_def)
  have n: "snake retro_game0 \<noteq> []" "pu_type shrink_item = SHRINK" "length (snake retro_game0) = 1"
    by (simp_all add: retro_game0_def shrink_item_def)
  show ?thesis
    using snake_never_empty[of "fst (the (reset_game retro_game0 world0))" "pi_Snake_init 16 12"
        "pi_Snake_init 16 12" "(pi_Snake_init 16 12)\<lparr>pi_segments := [(17, 12)]\<rparr>"
        retro_game0 shrink_item retro_game0 world0 "retro_game0\<lparr>snake := [(21, 15)]\<rparr>" world0]
      r m u n pi_reachable.init[of 16 12]
    by simp
qed

section \<open>Iterations of the main loop outside PLAYING\<close>

text \<open>
  C6 (as amended).  An iteration of the main loop that starts in MENU, PAUSED or
  GAME_OVER, with the space bar up (or, in GAME_OVER, down: it leads to the menu), returns
  and leaves the snake, the food, the power-ups, the obstacles and the score as they were,
  and the state is still not PLAYING.  The particle list is not left alone:
  \<open>update_particles\<close> runs in every state, so each particle is advanced and the expired
  ones are removed.
\<close>

theorem no_tick_outside_playing:
  assumes "state g \<noteq> PLAYING" and "keys K_SPACE \<longrightarrow> state g = GAME_OVER"
  shows "\<exists>running g' w'. run_iteration events keys g w = Returns (running, g', w')
           \<and> snake g' = snake g \<and> food g' = food g \<and> power_ups g' = power_ups g
           \<and> obstacles g' = obstacles g \<and> score g' = score g
           \<and> particles g' = update_particles_loop (particles g)
           \<and> state g' \<noteq> PLAYING"
proof -
  obtain r1 g1 where he: "handle_events events (True, g) = (r1, g1)" by fastforce
  have e1: "g1 = g\<lparr>state := state g1\<rparr>" and s1: "state g1 \<noteq> PLAYING"
    and o1: "state g = GAME_OVER \<longrightarrow> state g1 = GAME_OVER"
    using handle_events_state[OF he] assms(1) by simp_all
  define st where "st = (if keys K_SPACE then MENU else state g1)"
  have st: "st \<noteq> PLAYING" using s1 by (simp add: st_def)
  have "handle_input keys g1 w = Some (g1\<lparr>state := st\<rparr>, w)"
    unfolding st_def using s1 assms(2) o1 by (intro handle_input_idle) auto
  then have hi: "handle_input keys g1 w = Some (g\<lparr>state := st\<rparr>, w)"
    by (subst (asm) (2) e1) simp
  have ug: "update_game (g\<lparr>state := st\<rparr>) w = Returns (g\<lparr>state := st\<rparr>, w)"
    using st by (simp add: update_game_def)
  define g3 where "g3 = fst (apply_screen_shake (update_particles (g\<lparr>state := st\<rparr>)) (rng w))"
  have ri: "run_iteration events keys g w
      = Returns (r1, g3, w\<lparr>rng := snd (apply_screen_shake (update_particles (g\<lparr>state := st\<rparr>)) (rng w))\<rparr>)"
    by (simp add: run_iteration_def he hi ug split_beta Let_def g3_def)
  have f: "snake g3 = snake g \<and> food g3 = food g \<and> power_ups g3 = power_ups g
           \<and> obstacles g3 = obstacles g \<and> score g3 = score g
           \<and> particles g3 = update_particles_loop (particles g)
           \<and> state g3 \<noteq> PLAYING"
    using st by (simp add: g3_def apply_screen_shake_def update_particles_def split_beta)
  show ?thesis using ri f by blast
qed

theorem no_tick_outside_playing_witness:
  "state (retro_game0\<lparr>state := PAUSED, particles := [dead_particle, live_particle]\<rparr>) \<noteq> PLAYING
   \<and> \<not> no_key K_SPACE
   \<and> (\<exists>running g' w'.
         run_iteration [KEYDOWN K_ESCAPE] no_key
           (retro_game0\<lparr>state := PAUSED, particles := [dead_particle, live_particle]\<rparr>) world0
           = Returns (running, g', w')
         \<and> snake g' = [(20, 15)] \<and> food g' = (5, 5) \<and> power_ups g' = [] \<and> obstacles g' = []
         \<and> score g' = 0 \<and> particles g' = [Particle_update live_particle]
         \<and> state g' \<noteq> PLAYING)"
  using no_tick_outside_playing[of "retro_game0\<lparr>state := PAUSED, particles := [dead_particle, live_particle]\<rparr>"
      no_key "[KEYDOWN K_ESCAPE]" world0]
  by (simp add: retro_game0_def no_key_def dead_particle_def live_particle_def Particle_update_def Let_def)

text \<open>
  With the game over and a particle of the explosion alive, one iteration of the main loop
  changes the particle list.
\<close>

theorem particles_move_while_game_is_over:
  "state retro_over = GAME_OVER
   \<and> map_option (particles \<circ> fst \<circ> snd) (returned (run_iteration [] no_key retro_over world0))
       = Some [Particle_update live_particle]
   \<and> [Particle_update live_particle] \<noteq> particles retro_over"
  by (simp add: retro_over_def retro_game0_def run_iteration_def handle_input_def no_key_def
      update_game_def update_particles_def apply_screen_shake_def live_particle_def
      Particle_update_def Let_def)

end
